theory Spec2Isabelle
  imports Complex_Main "HOL-Library.Sublist"
begin

section \<open>JavaScript values\<close>

text \<open>
  Request bodies and stored records hold JSON values.  \<open>JUndef\<close> is what reading an absent
  field gives.  Numbers are the finite ones; \<open>NaN\<close>, where a builtin can return it, is the
  \<open>None\<close> of that builtin's result.
\<close>

datatype jsval =
    JUndef
  | JNull
  | JBool bool
  | JNum real
  | JStr string
  | JArr "jsval list"
  | JObj "(string \<times> jsval) list"

text \<open>\<open>!v\<close> is \<open>\<not> truthy v\<close>: \<open>undefined\<close>, \<open>null\<close>, \<open>false\<close>, \<open>0\<close> and \<open>""\<close> are falsy.\<close>

fun truthy :: "jsval \<Rightarrow> bool" where
  "truthy JUndef = False"
| "truthy JNull = False"
| "truthy (JBool b) = b"
| "truthy (JNum x) = (x \<noteq> 0)"
| "truthy (JStr s) = (s \<noteq> [])"
| "truthy (JArr _) = True"
| "truthy (JObj _) = True"

text \<open>
  \<open>a === b\<close>.  Primitives are compared by value.  Arrays and objects are compared by
  reference, and the two sides of every comparison of the server come from different
  \<open>JSON.parse\<close> calls (a file and a request), so they are never the same object.
\<close>

fun strict_eq :: "jsval \<Rightarrow> jsval \<Rightarrow> bool" where
  "strict_eq JUndef JUndef = True"
| "strict_eq JNull JNull = True"
| "strict_eq (JBool a) (JBool b) = (a = b)"
| "strict_eq (JNum a) (JNum b) = (a = b)"
| "strict_eq (JStr a) (JStr b) = (a = b)"
| "strict_eq _ _ = False"

text \<open>\<open>a || b\<close>\<close>

definition or_else :: "jsval \<Rightarrow> jsval \<Rightarrow> jsval" where
  "or_else a b = (if truthy a then a else b)"

text \<open>An object is a finite map from keys to values; \<open>o.k\<close> is \<open>field o k\<close>.\<close>

type_synonym jsobject = "string \<rightharpoonup> jsval"

definition field :: "jsobject \<Rightarrow> string \<Rightarrow> jsval" where
  "field obj k = (case obj k of None \<Rightarrow> JUndef | Some v \<Rightarrow> v)"

text \<open>A number as it is persisted: \<open>JSON.stringify\<close> writes \<open>NaN\<close> as \<open>null\<close>.\<close>

definition num_json :: "real option \<Rightarrow> jsval" where
  "num_json r = (case r of None \<Rightarrow> JNull | Some x \<Rightarrow> JNum x)"

text \<open>\<open>n || d\<close> for a number \<open>n\<close> (NaN and 0 are falsy).\<close>

definition num_or :: "real option \<Rightarrow> jsval \<Rightarrow> jsval" where
  "num_or r d = (case r of None \<Rightarrow> d | Some x \<Rightarrow> if x \<noteq> 0 then JNum x else d)"

section \<open>Arrays\<close>

text \<open>\<open>Array.prototype.findIndex\<close>; \<open>None\<close> is the \<open>-1\<close> of JavaScript.\<close>

fun findIndex :: "('a \<Rightarrow> bool) \<Rightarrow> 'a list \<Rightarrow> nat option" where
  "findIndex P [] = None"
| "findIndex P (x # xs) =
     (if P x then Some 0 else map_option Suc (findIndex P xs))"

text \<open>\<open>xs.splice(i, 1)\<close>\<close>

definition splice1 :: "nat \<Rightarrow> 'a list \<Rightarrow> 'a list" where
  "splice1 i xs = take i xs @ drop (Suc i) xs"

section \<open>Dates\<close>

text \<open>
  A time value is an integer number of milliseconds since the epoch.  A \<open>Date\<close> is a time
  value or the invalid date, \<open>None\<close>; every comparison with an invalid date is false.
  Timestamps are persisted as ISO strings (\<open>toISOString\<close>), which \<open>new Date\<close> reads back to
  the same time value, so a stored timestamp is modelled by its time value.
\<close>

type_synonym jsdate = "int option"

definition date_lt :: "jsdate \<Rightarrow> jsdate \<Rightarrow> bool" where
  "date_lt x y = (case (x, y) of (Some a, Some b) \<Rightarrow> a < b | _ \<Rightarrow> False)"

definition date_le :: "jsdate \<Rightarrow> jsdate \<Rightarrow> bool" where
  "date_le x y = (case (x, y) of (Some a, Some b) \<Rightarrow> a \<le> b | _ \<Rightarrow> False)"

definition date_gt :: "jsdate \<Rightarrow> jsdate \<Rightarrow> bool" where
  "date_gt x y = date_lt y x"

definition date_ge :: "jsdate \<Rightarrow> jsdate \<Rightarrow> bool" where
  "date_ge x y = date_le y x"

definition msPerDay :: int where
  "msPerDay = 1000 * 60 * 60 * 24"

text \<open>
  What the server takes from its JavaScript host: the local time zone (the offset of local
  time from UTC, looked up from a UTC time value and from a local one), the \<open>Date\<close>
  constructor on a request value, \<open>parseInt\<close>, \<open>parseFloat\<close>, the product
  \<open>price * nights\<close> of a stored value with a number, and the ISO text of a time value
  (for the timestamps kept inside property objects).
\<close>

record host =
  offset_of_utc :: "int \<Rightarrow> int"
  offset_of_local :: "int \<Rightarrow> int"
  newDate :: "jsval \<Rightarrow> jsdate"
  parseInt :: "jsval \<Rightarrow> real option"
  parseFloat :: "jsval \<Rightarrow> real option"
  times :: "jsval \<Rightarrow> real \<Rightarrow> real option"
  toISOString :: "int \<Rightarrow> string"

text \<open>
  \<open>d.setDate(d.getDate() + n)\<close>: the day of the month is read and written in local time,
  so the local time moves by \<open>n\<close> days and is converted back to UTC.
\<close>

definition setDate_plus :: "host \<Rightarrow> int \<Rightarrow> int \<Rightarrow> int" where
  "setDate_plus h t n =
     (let local = t + offset_of_utc h t + n * msPerDay
      in local - offset_of_local h local)"

section \<open>Record store\<close>

text \<open>
  A data file is absent, unreadable, holds text that \<open>JSON.parse\<close> rejects, or holds an
  array of records.  \<open>readData\<close> catches the exception of \<open>fs.readFile\<close> and of
  \<open>JSON.parse\<close> and returns \<open>[]\<close>.  A file whose text parses to something other than an
  array of records of its collection is outside the model (the server never writes one).
  In the handlers writes are taken to succeed; \<open>step_io\<close> below adds the write that fails.
\<close>

datatype 'a datafile = Absent | Unreadable | Unparseable | Stored "'a list"

fun readData :: "'a datafile \<Rightarrow> 'a list" where
  "readData (Stored xs) = xs"
| "readData Absent = []"
| "readData Unreadable = []"
| "readData Unparseable = []"

definition writeData :: "'a list \<Rightarrow> 'a datafile" where
  "writeData xs = Stored xs"

record subscription =
  sub_id :: string
  sub_userId :: string
  sub_planId :: jsval
  sub_price :: real
  sub_status :: string
  sub_createdAt :: int
  sub_expiresAt :: int
  sub_updatedAt :: int

record booking =
  b_id :: string
  b_propertyId :: jsval
  b_userId :: string
  b_checkIn :: int
  b_checkOut :: int
  b_guests :: jsval
  b_totalPrice :: jsval
  b_status :: jsval
  b_createdAt :: int

text \<open>
  A property is an open object: an update merges the whole request body into it.
  The authentication endpoints only touch the users file, which is left out.
\<close>

record store =
  subscriptions_file :: "subscription datafile"
  properties_file :: "jsobject datafile"
  bookings_file :: "booking datafile"

text \<open>
  The failures of the handlers, by the status and message the code sends:
  \<open>Forbidden\<close> is 403 on an ownership mismatch; \<open>SubscriptionRequired\<close> and
  \<open>SubscriptionExpired\<close> are the two 403 answers of the gate; \<open>ValidationError\<close> is 400 for
  a missing required field; \<open>PlanLimitExceeded\<close> is 403 for the listing limit of the basic
  plan; \<open>DatesUnavailable\<close> is 400 for a booking conflict; \<open>NotFound\<close> is 404;
  \<open>InvalidPlan\<close> is 400 for a plan that is not in the catalogue; \<open>InternalError\<close> is the 500 of
  a handler's \<open>catch\<close>.
\<close>

datatype error =
    Forbidden
  | SubscriptionRequired
  | SubscriptionExpired
  | ValidationError
  | PlanLimitExceeded
  | DatesUnavailable
  | NotFound
  | InvalidPlan
  | InternalError

datatype response =
    SubscriptionR subscription
  | SubscriptionOptR "subscription option"
  | PropertyR jsobject
  | PropertiesR "jsobject list"
  | BookingR booking
  | BookingsR "booking list"
  | DeletedR

type_synonym outcome = "(error + response) \<times> store"

section \<open>Subscription gate\<close>

definition is_active_of :: "string \<Rightarrow> subscription \<Rightarrow> bool" where
  "is_active_of uid sub = (sub_userId sub = uid \<and> sub_status sub = ''active'')"

text \<open>
  \<open>checkSubscription\<close>: 403 without an active subscription (\<open>SubscriptionRequired\<close>); an
  active one that has expired is marked, the file is written, and the answer is 403 with
  the message of \<open>SubscriptionExpired\<close>; otherwise the subscription is attached to the
  request.  \<open>find\<close> returns the array's own element, so the assignment changes the array
  at the position of the first match.
\<close>

definition checkSubscription :: "int \<Rightarrow> string \<Rightarrow> store \<Rightarrow> (error + subscription) \<times> store" where
  "checkSubscription now uid st =
     (let subscriptions = readData (subscriptions_file st) in
      case findIndex (is_active_of uid) subscriptions of
        None \<Rightarrow> (Inl SubscriptionRequired, st)
      | Some i \<Rightarrow>
          let userSubscription = subscriptions ! i in
          if sub_expiresAt userSubscription < now
          then (Inl SubscriptionExpired,
                st\<lparr>subscriptions_file :=
                     writeData (subscriptions[i := userSubscription\<lparr>sub_status := ''expired''\<rparr>])\<rparr>)
          else (Inr userSubscription, st))"

definition gated :: "int \<Rightarrow> string \<Rightarrow> (subscription \<Rightarrow> store \<Rightarrow> outcome) \<Rightarrow> store \<Rightarrow> outcome" where
  "gated now uid handler st =
     (case checkSubscription now uid st of
        (Inl e, st') \<Rightarrow> (Inl e, st')
      | (Inr sub, st') \<Rightarrow> handler sub st')"

section \<open>Subscriptions\<close>

record plan =
  plan_id :: string
  plan_price :: real
  plan_duration :: int

definition plans :: "plan list" where
  "plans =
     [\<lparr>plan_id = ''basic'', plan_price = 9.99, plan_duration = 30\<rparr>,
      \<lparr>plan_id = ''premium'', plan_price = 19.99, plan_duration = 30\<rparr>,
      \<lparr>plan_id = ''enterprise'', plan_price = 49.99, plan_duration = 30\<rparr>]"

text \<open>\<open>POST /api/subscriptions/subscribe\<close>; \<open>newId\<close> is the result of \<open>uuidv4()\<close>.\<close>

definition subscribe :: "host \<Rightarrow> int \<Rightarrow> string \<Rightarrow> string \<Rightarrow> jsobject \<Rightarrow> store \<Rightarrow> outcome" where
  "subscribe h now newId uid body st =
     (let planId = field body ''planId'' in
      if \<not> truthy planId then (Inl ValidationError, st)
      else case find (\<lambda>p. strict_eq (JStr (plan_id p)) planId) plans of
        None \<Rightarrow> (Inl InvalidPlan, st)
      | Some plan \<Rightarrow>
          let subscriptions = readData (subscriptions_file st);
              expiresAt = setDate_plus h now (plan_duration plan)
          in case findIndex (is_active_of uid) subscriptions of
            Some i \<Rightarrow>
              let existingSubscription = (subscriptions ! i)
                    \<lparr>sub_planId := planId, sub_price := plan_price plan,
                     sub_expiresAt := expiresAt, sub_updatedAt := now\<rparr>
              in (Inr (SubscriptionR existingSubscription),
                  st\<lparr>subscriptions_file :=
                       writeData (subscriptions[i := existingSubscription])\<rparr>)
          | None \<Rightarrow>
              let newSubscription =
                    \<lparr>sub_id = newId, sub_userId = uid, sub_planId = planId,
                     sub_price = plan_price plan, sub_status = ''active'',
                     sub_createdAt = now, sub_expiresAt = expiresAt, sub_updatedAt = now\<rparr>
              in (Inr (SubscriptionR newSubscription),
                  st\<lparr>subscriptions_file := writeData (subscriptions @ [newSubscription])\<rparr>))"

definition my_subscription :: "string \<Rightarrow> store \<Rightarrow> outcome" where
  "my_subscription uid st =
     (Inr (SubscriptionOptR
        (find (\<lambda>sub. sub_userId sub = uid) (readData (subscriptions_file st)))), st)"

section \<open>Listings\<close>

definition owned_by :: "string \<Rightarrow> jsobject \<Rightarrow> bool" where
  "owned_by uid p = strict_eq (field p ''ownerId'') (JStr uid)"

definition has_id :: "jsval \<Rightarrow> jsobject \<Rightarrow> bool" where
  "has_id v p = strict_eq (field p ''id'') v"

definition get_properties :: "store \<Rightarrow> outcome" where
  "get_properties st = (Inr (PropertiesR (readData (properties_file st))), st)"

definition get_property :: "string \<Rightarrow> store \<Rightarrow> outcome" where
  "get_property pid st =
     (case find (has_id (JStr pid)) (readData (properties_file st)) of
        None \<Rightarrow> (Inl NotFound, st)
      | Some property \<Rightarrow> (Inr (PropertyR property), st))"

text \<open>
  \<open>POST /api/properties\<close>, after the gate has attached \<open>subscription\<close>.  The two
  \<open>new Date()\<close> of the record are read as the same instant \<open>now\<close>.
\<close>

definition create_property ::
  "host \<Rightarrow> int \<Rightarrow> string \<Rightarrow> string \<Rightarrow> jsobject \<Rightarrow> subscription \<Rightarrow> store \<Rightarrow> outcome" where
  "create_property h now newId uid body subscription st =
     (let title = field body ''title'';
          description = field body ''description'';
          location = field body ''location'';
          price = field body ''price'';
          type = field body ''type'';
          bedrooms = field body ''bedrooms'';
          bathrooms = field body ''bathrooms'';
          guests = field body ''guests'';
          amenities = field body ''amenities'';
          images = field body ''images''
      in
      if \<not> truthy title \<or> \<not> truthy location \<or> \<not> truthy price
      then (Inl ValidationError, st)
      else if strict_eq (sub_planId subscription) (JStr ''basic'') \<and>
              length (filter (owned_by uid) (readData (properties_file st))) \<ge> 3
      then (Inl PlanLimitExceeded, st)
      else
        let properties = readData (properties_file st);
            newProperty =
              [''id'' \<mapsto> JStr newId,
               ''ownerId'' \<mapsto> JStr uid,
               ''title'' \<mapsto> title,
               ''description'' \<mapsto> or_else description (JStr []),
               ''location'' \<mapsto> location,
               ''price'' \<mapsto> num_json (parseFloat h price),
               ''type'' \<mapsto> or_else type (JStr ''apartment''),
               ''bedrooms'' \<mapsto> num_or (parseInt h bedrooms) (JNum 1),
               ''bathrooms'' \<mapsto> num_or (parseInt h bathrooms) (JNum 1),
               ''guests'' \<mapsto> num_or (parseInt h guests) (JNum 2),
               ''amenities'' \<mapsto> or_else amenities (JArr []),
               ''images'' \<mapsto> or_else images (JArr []),
               ''rating'' \<mapsto> JNum 0,
               ''reviews'' \<mapsto> JNum 0,
               ''instant'' \<mapsto> JBool False,
               ''premium'' \<mapsto> JBool (\<not> strict_eq (sub_planId subscription) (JStr ''basic'')),
               ''createdAt'' \<mapsto> JStr (toISOString h now),
               ''updatedAt'' \<mapsto> JStr (toISOString h now)]
        in (Inr (PropertyR newProperty),
            st\<lparr>properties_file := writeData (properties @ [newProperty])\<rparr>))"

text \<open>
  \<open>PUT /api/properties/:id\<close>.  The spread \<open>{...property, ...req.body, id, ownerId,
  updatedAt}\<close> is the map of the property overridden by the body, with the three last
  keys set afterwards.
\<close>

definition update_property ::
  "host \<Rightarrow> int \<Rightarrow> string \<Rightarrow> string \<Rightarrow> jsobject \<Rightarrow> store \<Rightarrow> outcome" where
  "update_property h now uid pid body st =
     (let properties = readData (properties_file st) in
      case findIndex (has_id (JStr pid)) properties of
        None \<Rightarrow> (Inl NotFound, st)
      | Some propertyIndex \<Rightarrow>
          let property = properties ! propertyIndex in
          if \<not> owned_by uid property then (Inl Forbidden, st)
          else
            let updatedProperty =
                  (property ++ body)
                    (''id'' := property ''id'',
                     ''ownerId'' := property ''ownerId'',
                     ''updatedAt'' \<mapsto> JStr (toISOString h now))
            in (Inr (PropertyR updatedProperty),
                st\<lparr>properties_file :=
                     writeData (properties[propertyIndex := updatedProperty])\<rparr>))"

definition delete_property :: "string \<Rightarrow> string \<Rightarrow> store \<Rightarrow> outcome" where
  "delete_property uid pid st =
     (let properties = readData (properties_file st) in
      case findIndex (has_id (JStr pid)) properties of
        None \<Rightarrow> (Inl NotFound, st)
      | Some propertyIndex \<Rightarrow>
          let property = properties ! propertyIndex in
          if \<not> owned_by uid property then (Inl Forbidden, st)
          else (Inr DeletedR,
                st\<lparr>properties_file := writeData (splice1 propertyIndex properties)\<rparr>))"

definition my_listings :: "string \<Rightarrow> store \<Rightarrow> outcome" where
  "my_listings uid st =
     (Inr (PropertiesR (filter (owned_by uid) (readData (properties_file st)))), st)"

section \<open>Bookings\<close>

text \<open>The predicate of \<open>bookings.find\<close> in booking creation.\<close>

definition conflicts :: "jsval \<Rightarrow> jsdate \<Rightarrow> jsdate \<Rightarrow> booking \<Rightarrow> bool" where
  "conflicts propertyId checkInDate checkOutDate b =
     (if \<not> strict_eq (b_propertyId b) propertyId \<or>
         \<not> strict_eq (b_status b) (JStr ''confirmed'')
      then False
      else
        let bCheckIn = Some (b_checkIn b);
            bCheckOut = Some (b_checkOut b)
        in (date_ge checkInDate bCheckIn \<and> date_lt checkInDate bCheckOut) \<or>
           (date_gt checkOutDate bCheckIn \<and> date_le checkOutDate bCheckOut) \<or>
           (date_le checkInDate bCheckIn \<and> date_ge checkOutDate bCheckOut))"

text \<open>\<open>Math.ceil((checkOutDate - checkInDate) / (1000 * 60 * 60 * 24))\<close>\<close>

definition nights_between :: "int \<Rightarrow> int \<Rightarrow> int" where
  "nights_between checkInDate checkOutDate =
     \<lceil>(of_int (checkOutDate - checkInDate) :: real) / of_int msPerDay\<rceil>"

text \<open>
  \<open>POST /api/bookings\<close>.  With an invalid date no comparison holds, so no booking
  conflicts; \<open>toISOString\<close> then throws while the record is built and the handler's
  \<open>catch\<close> answers 500.
\<close>

definition create_booking ::
  "host \<Rightarrow> int \<Rightarrow> string \<Rightarrow> string \<Rightarrow> jsobject \<Rightarrow> store \<Rightarrow> outcome" where
  "create_booking h now newId uid body st =
     (let propertyId = field body ''propertyId'';
          checkIn = field body ''checkIn'';
          checkOut = field body ''checkOut'';
          bookingGuests = field body ''guests''
      in
      if \<not> truthy propertyId \<or> \<not> truthy checkIn \<or> \<not> truthy checkOut
      then (Inl ValidationError, st)
      else case find (has_id propertyId) (readData (properties_file st)) of
        None \<Rightarrow> (Inl NotFound, st)
      | Some property \<Rightarrow>
          let bookings = readData (bookings_file st);
              checkInDate = newDate h checkIn;
              checkOutDate = newDate h checkOut
          in case find (conflicts propertyId checkInDate checkOutDate) bookings of
            Some conflictingBooking \<Rightarrow> (Inl DatesUnavailable, st)
          | None \<Rightarrow>
              (case (checkInDate, checkOutDate) of
                 (Some ci, Some co) \<Rightarrow>
                   let nights = nights_between ci co;
                       totalPrice = times h (field property ''price'') (of_int nights);
                       newBooking =
                         \<lparr>b_id = newId,
                          b_propertyId = propertyId,
                          b_userId = uid,
                          b_checkIn = ci,
                          b_checkOut = co,
                          b_guests = num_or (parseInt h bookingGuests) (field property ''guests''),
                          b_totalPrice = num_json totalPrice,
                          b_status = (if truthy (field property ''instant'')
                                      then JStr ''confirmed'' else JStr ''pending''),
                          b_createdAt = now\<rparr>
                   in (Inr (BookingR newBooking),
                       st\<lparr>bookings_file := writeData (bookings @ [newBooking])\<rparr>)
               | _ \<Rightarrow> (Inl InternalError, st)))"

definition my_bookings :: "string \<Rightarrow> store \<Rightarrow> outcome" where
  "my_bookings uid st =
     (Inr (BookingsR (filter (\<lambda>b. b_userId b = uid) (readData (bookings_file st)))), st)"

text \<open>
  \<open>GET /api/bookings/my/properties\<close>; \<open>includes\<close> compares as \<open>===\<close> does on JSON values.
\<close>

definition my_property_bookings :: "string \<Rightarrow> store \<Rightarrow> outcome" where
  "my_property_bookings uid st =
     (let properties = readData (properties_file st);
          userPropertyIds = map (\<lambda>p. field p ''id'') (filter (owned_by uid) properties);
          bookings = readData (bookings_file st)
      in (Inr (BookingsR
            (filter (\<lambda>b. list_ex (\<lambda>i. strict_eq i (b_propertyId b)) userPropertyIds) bookings)),
          st))"

text \<open>\<open>PUT /api/bookings/:id/status\<close>, after the gate.\<close>

definition update_booking_status :: "string \<Rightarrow> string \<Rightarrow> jsobject \<Rightarrow> store \<Rightarrow> outcome" where
  "update_booking_status uid bid body st =
     (let status = field body ''status'';
          bookings = readData (bookings_file st)
      in case findIndex (\<lambda>b. b_id b = bid) bookings of
        None \<Rightarrow> (Inl NotFound, st)
      | Some bookingIndex \<Rightarrow>
          let booking = bookings ! bookingIndex;
              properties = readData (properties_file st)
          in case find (has_id (b_propertyId booking)) properties of
            None \<Rightarrow> (Inl Forbidden, st)
          | Some property \<Rightarrow>
              if \<not> owned_by uid property then (Inl Forbidden, st)
              else
                let updated = booking\<lparr>b_status := status\<rparr>
                in (Inr (BookingR updated),
                    st\<lparr>bookings_file := writeData (bookings[bookingIndex := updated])\<rparr>))"

section \<open>Requests\<close>

text \<open>
  One constructor for each endpoint that reads or writes the three collections.  The first
  argument is the authenticated caller where the endpoint has one; \<open>int\<close> arguments are
  the clock reading of the request and the \<open>string\<close> after it, where present, a fresh
  \<open>uuidv4()\<close> or the \<open>:id\<close> of the path.
\<close>

datatype request =
    Subscribe string int string jsobject
  | MySubscription string
  | GetProperties
  | GetProperty string
  | CreateProperty string int string jsobject
  | UpdateProperty string int string jsobject
  | DeleteProperty string int string
  | MyListings string int
  | CreateBooking string int string jsobject
  | MyBookings string
  | MyPropertyBookings string int
  | UpdateBookingStatus string int string jsobject

fun step :: "host \<Rightarrow> request \<Rightarrow> store \<Rightarrow> outcome" where
  "step h (Subscribe uid now newId body) st = subscribe h now newId uid body st"
| "step h (MySubscription uid) st = my_subscription uid st"
| "step h GetProperties st = get_properties st"
| "step h (GetProperty pid) st = get_property pid st"
| "step h (CreateProperty uid now newId body) st =
     gated now uid (create_property h now newId uid body) st"
| "step h (UpdateProperty uid now pid body) st =
     gated now uid (\<lambda>sub. update_property h now uid pid body) st"
| "step h (DeleteProperty uid now pid) st =
     gated now uid (\<lambda>sub. delete_property uid pid) st"
| "step h (MyListings uid now) st = gated now uid (\<lambda>sub. my_listings uid) st"
| "step h (CreateBooking uid now newId body) st = create_booking h now newId uid body st"
| "step h (MyBookings uid) st = my_bookings uid st"
| "step h (MyPropertyBookings uid now) st =
     gated now uid (\<lambda>sub. my_property_bookings uid) st"
| "step h (UpdateBookingStatus uid now bid body) st =
     gated now uid (\<lambda>sub. update_booking_status uid bid body) st"

text \<open>The store after a sequence of requests, served one after the other.\<close>

fun run :: "host \<Rightarrow> request list \<Rightarrow> store \<Rightarrow> store" where
  "run h [] st = st"
| "run h (r # rs) st = run h rs (snd (step h r st))"

section \<open>Notions used in the statements\<close>

text \<open>The collections as the handlers read them.\<close>

definition subscriptions_of :: "store \<Rightarrow> subscription list" where
  "subscriptions_of st = readData (subscriptions_file st)"

definition properties_of :: "store \<Rightarrow> jsobject list" where
  "properties_of st = readData (properties_file st)"

definition bookings_of :: "store \<Rightarrow> booking list" where
  "bookings_of st = readData (bookings_file st)"

definition contents :: "store \<Rightarrow> subscription list \<times> jsobject list \<times> booking list" where
  "contents st = (subscriptions_of st, properties_of st, bookings_of st)"

text \<open>The store that \<open>initData\<close> creates: every file holds \<open>[]\<close>.\<close>

definition empty_store :: store where
  "empty_store =
     \<lparr>subscriptions_file = Stored [], properties_file = Stored [], bookings_file = Stored []\<rparr>"

text \<open>No two active subscription records belong to the same user.\<close>

definition one_active :: "subscription list \<Rightarrow> bool" where
  "one_active subs \<longleftrightarrow>
     (\<forall>i < length subs. \<forall>j < length subs.
        sub_status (subs ! i) = ''active'' \<and> sub_status (subs ! j) = ''active'' \<and>
        sub_userId (subs ! i) = sub_userId (subs ! j) \<longrightarrow> i = j)"

fun is_subscribe_by :: "string \<Rightarrow> request \<Rightarrow> bool" where
  "is_subscribe_by u (Subscribe uid now newId body) = (uid = u)"
| "is_subscribe_by u _ = False"

text \<open>The required fields of a listing are present (truthy), and the caller's listings.\<close>

definition required_fields :: "jsobject \<Rightarrow> bool" where
  "required_fields body \<longleftrightarrow>
     truthy (field body ''title'') \<and> truthy (field body ''location'') \<and> truthy (field body ''price'')"

definition listings_of :: "string \<Rightarrow> store \<Rightarrow> jsobject list" where
  "listings_of uid st = filter (owned_by uid) (readData (properties_file st))"

text \<open>
  The requester owns the property of a booking, as \<open>updateStatus\<close> decides it: the property
  is found and its \<open>ownerId\<close> is the requester.
\<close>

definition owns_property_of :: "string \<Rightarrow> booking \<Rightarrow> store \<Rightarrow> bool" where
  "owns_property_of uid b st =
     (case find (has_id (b_propertyId b)) (properties_of st) of
        None \<Rightarrow> False
      | Some property \<Rightarrow> owned_by uid property)"

fun is_update_status :: "request \<Rightarrow> bool" where
  "is_update_status (UpdateBookingStatus uid now bid body) = True"
| "is_update_status _ = False"

text \<open>
  The overlap of the half-open intervals \<open>[a, b)\<close> and \<open>[c, d)\<close> in the words of the
  specification, to be compared with \<open>conflicts\<close>.
\<close>

definition overlap_spec :: "int \<Rightarrow> int \<Rightarrow> int \<Rightarrow> int \<Rightarrow> bool" where
  "overlap_spec a b c d \<longleftrightarrow> a < d \<and> c < b"

section \<open>Example data\<close>

text \<open>
  A host and a store for the examples.  The host is in the UTC zone.  Its \<open>Date\<close>
  constructor, \<open>parseInt\<close>, \<open>parseFloat\<close> and product are those of JavaScript on numbers
  (a number is read as a time value, truncated, within the range of \<open>Date\<close>); the examples
  pass no other values to them, and on those the example host answers \<open>NaN\<close>.  It renders
  the one timestamp the examples write.
\<close>

definition example_host :: host where
  "example_host =
     \<lparr>offset_of_utc = (\<lambda>t. 0),
      offset_of_local = (\<lambda>t. 0),
      newDate = (\<lambda>v. case v of
                   JNum x \<Rightarrow> if \<bar>x\<bar> \<le> 8640000000000000
                            then Some (if 0 \<le> x then \<lfloor>x\<rfloor> else \<lceil>x\<rceil>) else None
                 | _ \<Rightarrow> None),
      parseInt = (\<lambda>v. case v of
                    JNum x \<Rightarrow> Some (of_int (if 0 \<le> x then \<lfloor>x\<rfloor> else \<lceil>x\<rceil>))
                  | _ \<Rightarrow> None),
      parseFloat = (\<lambda>v. case v of JNum x \<Rightarrow> Some x | _ \<Rightarrow> None),
      times = (\<lambda>v n. case v of JNum x \<Rightarrow> Some (x * n) | _ \<Rightarrow> None),
      toISOString = (\<lambda>t. if t = 1704067200000 then ''2024-01-01T00:00:00.000Z'' else [])\<rparr>"

text \<open>The time value of 00:00 UTC on day \<open>d\<close> of 2024, counted from 1 January (so \<open>jan 32\<close> is
  1 February).\<close>

definition jan :: "int \<Rightarrow> int" where
  "jan d = (19722 + d) * msPerDay"

definition listing :: "string \<Rightarrow> string \<Rightarrow> bool \<Rightarrow> jsobject" where
  "listing pid owner instant =
     [''id'' \<mapsto> JStr pid, ''ownerId'' \<mapsto> JStr owner, ''title'' \<mapsto> JStr ''Flat'',
      ''location'' \<mapsto> JStr ''Riga'', ''price'' \<mapsto> JNum 100, ''guests'' \<mapsto> JNum 2,
      ''instant'' \<mapsto> JBool instant]"

definition alice_sub :: "jsval \<Rightarrow> subscription" where
  "alice_sub planId =
     \<lparr>sub_id = ''s1'', sub_userId = ''alice'', sub_planId = planId, sub_price = 9.99,
      sub_status = ''active'', sub_createdAt = jan 1,
      sub_expiresAt = jan 31, sub_updatedAt = jan 1\<rparr>"

definition stay :: "string \<Rightarrow> string \<Rightarrow> int \<Rightarrow> int \<Rightarrow> string \<Rightarrow> booking" where
  "stay bid pid checkIn checkOut status =
     \<lparr>b_id = bid, b_propertyId = JStr pid, b_userId = ''bob'',
      b_checkIn = checkIn, b_checkOut = checkOut,
      b_guests = JNum 2, b_totalPrice = JNum 500, b_status = JStr status,
      b_createdAt = jan 1\<rparr>"

definition example_store :: store where
  "example_store =
     \<lparr>subscriptions_file = Stored [alice_sub (JStr ''basic'')],
      properties_file =
        Stored [listing ''p1'' ''alice'' True, listing ''p2'' ''alice'' False,
                listing ''p3'' ''alice'' False],
      bookings_file = Stored [stay ''b1'' ''p1'' (jan 10) (jan 15) ''confirmed'']\<rparr>"

definition flat_request :: "real \<Rightarrow> jsobject" where
  "flat_request price =
     [''title'' \<mapsto> JStr ''Flat'', ''location'' \<mapsto> JStr ''Riga'', ''price'' \<mapsto> JNum price]"

definition patch :: jsobject where
  "patch = [''title'' \<mapsto> JStr ''Loft'', ''id'' \<mapsto> JStr ''p1'', ''ownerId'' \<mapsto> JStr ''bob'']"

definition booking_request :: "string \<Rightarrow> int \<Rightarrow> int \<Rightarrow> jsobject" where
  "booking_request pid checkIn checkOut =
     [''propertyId'' \<mapsto> JStr pid,
      ''checkIn'' \<mapsto> JNum (of_int checkIn),
      ''checkOut'' \<mapsto> JNum (of_int checkOut)]"

section \<open>Write failures\<close>

text \<open>
  Writing a file that cannot be read.  \<open>fs.writeFile\<close> throws on a path that can be neither
  read nor written (a directory, a file without permissions); \<open>writeData\<close> does not catch,
  so the \<open>catch\<close> of the handler (or of the gate) answers 500 and nothing is stored.  Every
  request writes at most one file, as its last action, and a write to an unreadable file
  shows in \<open>step\<close> as a file that is no longer unreadable afterwards.  \<open>step_io\<close> is the
  request with that failure; its first argument says whether the files that cannot be read
  can still be written (a permission that only denies reading).  Writes to all other files
  are taken to succeed.
\<close>

datatype collection = Subscriptions | Properties | Bookings

datatype read_failure = FileAbsent | FileUnreadable | FileUnparseable

fun failed_file :: "read_failure \<Rightarrow> 'a datafile" where
  "failed_file FileAbsent = Absent"
| "failed_file FileUnreadable = Unreadable"
| "failed_file FileUnparseable = Unparseable"

fun with_failure :: "collection \<Rightarrow> read_failure \<Rightarrow> store \<Rightarrow> store" where
  "with_failure Subscriptions k st = st\<lparr>subscriptions_file := failed_file k\<rparr>"
| "with_failure Properties k st = st\<lparr>properties_file := failed_file k\<rparr>"
| "with_failure Bookings k st = st\<lparr>bookings_file := failed_file k\<rparr>"

fun with_empty :: "collection \<Rightarrow> store \<Rightarrow> store" where
  "with_empty Subscriptions st = st\<lparr>subscriptions_file := Stored []\<rparr>"
| "with_empty Properties st = st\<lparr>properties_file := Stored []\<rparr>"
| "with_empty Bookings st = st\<lparr>bookings_file := Stored []\<rparr>"

fun unreadable :: "collection \<Rightarrow> store \<Rightarrow> bool" where
  "unreadable Subscriptions st = (subscriptions_file st = Unreadable)"
| "unreadable Properties st = (properties_file st = Unreadable)"
| "unreadable Bookings st = (bookings_file st = Unreadable)"

fun reads_empty :: "collection \<Rightarrow> store \<Rightarrow> bool" where
  "reads_empty Subscriptions st = (subscriptions_of st = [])"
| "reads_empty Properties st = (properties_of st = [])"
| "reads_empty Bookings st = (bookings_of st = [])"

definition write_refused :: "store \<Rightarrow> store \<Rightarrow> bool" where
  "write_refused st st' \<longleftrightarrow>
     (unreadable Subscriptions st \<and> \<not> unreadable Subscriptions st') \<or>
     (unreadable Properties st \<and> \<not> unreadable Properties st') \<or>
     (unreadable Bookings st \<and> \<not> unreadable Bookings st')"

definition step_io :: "bool \<Rightarrow> host \<Rightarrow> request \<Rightarrow> store \<Rightarrow> outcome" where
  "step_io writable h r st =
     (case step h r st of
        (res, st') \<Rightarrow>
          if \<not> writable \<and> write_refused st st' then (Inl InternalError, st)
          else (res, st'))"

section \<open>Auxiliary facts\<close>

lemma findIndex_None_iff: "findIndex P xs = None \<longleftrightarrow> (\<forall>x\<in>set xs. \<not> P x)"
  by (induction xs) auto

lemma findIndex_SomeD:
  "findIndex P xs = Some i \<Longrightarrow> i < length xs \<and> P (xs ! i) \<and> (\<forall>j<i. \<not> P (xs ! j))"
proof (induction xs arbitrary: i)
  case Nil
  then show ?case by simp
next
  case (Cons x xs)
  show ?case
  proof (cases "P x")
    case True
    with Cons.prems show ?thesis by simp
  next
    case False
    with Cons.prems obtain k where k: "findIndex P xs = Some k" "i = Suc k"
      by auto
    from Cons.IH[OF k(1)] False k(2) show ?thesis
      by (auto simp: nth_Cons split: nat.splits)
  qed
qed

text \<open>\<open>find\<close> returns the element at the index that \<open>findIndex\<close> returns.\<close>

lemma find_findIndex: "find P xs = map_option (nth xs) (findIndex P xs)"
  by (induction xs) (auto simp: option.map_comp comp_def)

lemma strict_eq_JStr [simp]: "strict_eq v (JStr s) \<longleftrightarrow> v = JStr s"
  by (cases v) auto

lemma strict_eq_JStr_left [simp]: "strict_eq (JStr s) v \<longleftrightarrow> v = JStr s"
  by (cases v) auto

lemma owned_by_iff: "owned_by uid p \<longleftrightarrow> field p ''ownerId'' = JStr uid"
  by (simp add: owned_by_def)

lemma checkSubscription_other_files:
  "properties_file (snd (checkSubscription now uid st)) = properties_file st \<and>
   bookings_file (snd (checkSubscription now uid st)) = bookings_file st"
  by (simp add: checkSubscription_def Let_def split: option.splits)

lemma checkSubscription_pass:
  "checkSubscription now uid st = (Inr sub, st') \<Longrightarrow> st' = st"
  by (auto simp: checkSubscription_def Let_def split: option.splits if_splits)

lemma gated_cases:
  "(\<exists>e. gated now uid f st = (Inl e, snd (checkSubscription now uid st)) \<and>
        fst (checkSubscription now uid st) = Inl e) \<or>
   (\<exists>sub. checkSubscription now uid st = (Inr sub, st) \<and> gated now uid f st = f sub st)"
proof (cases "checkSubscription now uid st")
  case (Pair r st')
  show ?thesis
  proof (cases r)
    case (Inl e)
    with Pair show ?thesis by (simp add: gated_def)
  next
    case (Inr sub)
    with Pair checkSubscription_pass[of now uid st sub st'] show ?thesis
      by (simp add: gated_def)
  qed
qed

lemma example_properties:
  "properties_of example_store =
     [listing ''p1'' ''alice'' True, listing ''p2'' ''alice'' False, listing ''p3'' ''alice'' False]"
  by (simp add: properties_of_def example_store_def)

lemma listing_fields:
  "field (listing pid owner instant) ''id'' = JStr pid"
  "field (listing pid owner instant) ''ownerId'' = JStr owner"
  "field (listing pid owner instant) ''instant'' = JBool instant"
  by (simp_all add: listing_def field_def)

lemma example_bookings:
  "bookings_of example_store = [stay ''b1'' ''p1'' (jan 10) (jan 15) ''confirmed'']"
  by (simp add: bookings_of_def example_store_def)

lemma example_owner:
  "owns_property_of uid (stay bid ''p1'' a b s) example_store \<longleftrightarrow> uid = ''alice''"
  by (auto simp: owns_property_of_def example_properties stay_def has_id_def owned_by_iff
      listing_fields)

lemma booking_request_fields:
  "field (booking_request pid a b) ''propertyId'' = JStr pid"
  "field (booking_request pid a b) ''checkIn'' = JNum (of_int a)"
  "field (booking_request pid a b) ''checkOut'' = JNum (of_int b)"
  "field (booking_request pid a b) ''guests'' = JUndef"
  by (simp_all add: booking_request_def field_def)

lemma example_newDate:
  "newDate example_host (JNum x) =
     (if \<bar>x\<bar> \<le> 8640000000000000 then Some (if 0 \<le> x then \<lfloor>x\<rfloor> else \<lceil>x\<rceil>) else None)"
  by (simp add: example_host_def)

section \<open>Listing creation\<close>

text \<open>
  C10.  The required-field check of listing creation is a truthiness test: a request whose
  title, location or price is falsy (absent, \<open>null\<close>, \<open>false\<close>, the number 0, the empty
  string) is answered with \<open>ValidationError\<close> and the store is left as it was, whatever the
  plan and however many listings the owner has; the plan limit is not looked at.
\<close>

theorem create_property_required_fields:
  assumes "\<not> truthy (field body ''title'') \<or> \<not> truthy (field body ''location'') \<or>
           \<not> truthy (field body ''price'')"
  shows "create_property h now newId uid body subscription st = (Inl ValidationError, st)"
  using assms by (auto simp: create_property_def Let_def)

theorem create_property_required_fields_witness:
  "\<not> truthy (field (flat_request 0) ''price'') \<and>
   sub_planId (alice_sub (JStr ''basic'')) = JStr ''basic'' \<and>
   length (listings_of ''alice'' example_store) = 3 \<and>
   create_property example_host (jan 1) ''p4'' ''alice'' (flat_request 0)
     (alice_sub (JStr ''basic'')) example_store = (Inl ValidationError, example_store)"
proof -
  have f: "\<not> truthy (field (flat_request 0) ''price'')"
    by (simp add: field_def flat_request_def)
  then have "\<not> truthy (field (flat_request 0) ''title'') \<or>
     \<not> truthy (field (flat_request 0) ''location'') \<or> \<not> truthy (field (flat_request 0) ''price'')"
    by blast
  from create_property_required_fields[OF this] f show ?thesis
    by (simp add: alice_sub_def listings_of_def example_store_def listing_def owned_by_def field_def)
qed

lemma create_property_created:
  assumes "required_fields body"
      and "sub_planId sub \<noteq> JStr ''basic'' \<or> length (listings_of uid st) < 3"
  shows "\<exists>p. create_property h now newId uid body sub st =
               (Inr (PropertyR p),
                st\<lparr>properties_file := writeData (readData (properties_file st) @ [p])\<rparr>) \<and>
             field p ''ownerId'' = JStr uid \<and> field p ''id'' = JStr newId"
  using assms
  by (auto simp: create_property_def Let_def required_fields_def listings_of_def field_def)

text \<open>
  C5.  With a \<open>basic\<close> subscription attached and three or more listings of the owner in the
  store, listing creation never succeeds and writes nothing, and a request that has its
  required fields is answered with \<open>PlanLimitExceeded\<close>.  With any other plan the answer is
  never \<open>PlanLimitExceeded\<close>, and a request that has its required fields appends the new
  listing, however many listings the owner has.
\<close>

theorem basic_plan_listing_cap:
  "(sub_planId sub = JStr ''basic'' \<and> 3 \<le> length (listings_of uid st) \<longrightarrow>
      (\<exists>e. create_property h now newId uid body sub st = (Inl e, st)) \<and>
      (required_fields body \<longrightarrow>
         create_property h now newId uid body sub st = (Inl PlanLimitExceeded, st))) \<and>
   (sub_planId sub \<noteq> JStr ''basic'' \<longrightarrow>
      fst (create_property h now newId uid body sub st) \<noteq> Inl PlanLimitExceeded \<and>
      (required_fields body \<longrightarrow>
         (\<exists>p. create_property h now newId uid body sub st =
                 (Inr (PropertyR p),
                  st\<lparr>properties_file := writeData (readData (properties_file st) @ [p])\<rparr>))))"
proof (intro conjI impI)
  assume a: "sub_planId sub = JStr ''basic'' \<and> 3 \<le> length (listings_of uid st)"
  then show "\<exists>e. create_property h now newId uid body sub st = (Inl e, st)"
    by (auto simp: create_property_def Let_def listings_of_def)
  from a show "create_property h now newId uid body sub st = (Inl PlanLimitExceeded, st)"
    if "required_fields body"
    using that by (auto simp: create_property_def Let_def listings_of_def required_fields_def)
next
  assume n: "sub_planId sub \<noteq> JStr ''basic''"
  then show "fst (create_property h now newId uid body sub st) \<noteq> Inl PlanLimitExceeded"
    by (auto simp: create_property_def Let_def)
  from n show "\<exists>p. create_property h now newId uid body sub st =
                 (Inr (PropertyR p),
                  st\<lparr>properties_file := writeData (readData (properties_file st) @ [p])\<rparr>)"
    if "required_fields body"
    using create_property_created[OF that, of sub uid st h now newId] by blast
qed

theorem basic_plan_listing_cap_witness:
  "sub_planId (alice_sub (JStr ''basic'')) = JStr ''basic'' \<and>
   3 \<le> length (listings_of ''alice'' example_store) \<and>
   required_fields (flat_request 80) \<and>
   create_property example_host (jan 1) ''p4'' ''alice'' (flat_request 80)
     (alice_sub (JStr ''basic'')) example_store = (Inl PlanLimitExceeded, example_store) \<and>
   sub_planId (alice_sub (JStr ''premium'')) \<noteq> JStr ''basic'' \<and>
   (\<exists>p. create_property example_host (jan 1) ''p4'' ''alice'' (flat_request 80)
     (alice_sub (JStr ''premium'')) example_store =
       (Inr (PropertyR p),
        example_store\<lparr>properties_file :=
           writeData (readData (properties_file example_store) @ [p])\<rparr>))"
proof -
  have b: "sub_planId (alice_sub (JStr ''basic'')) = JStr ''basic''"
    and p: "sub_planId (alice_sub (JStr ''premium'')) \<noteq> JStr ''basic''"
    by (simp_all add: alice_sub_def)
  have n: "3 \<le> length (listings_of ''alice'' example_store)"
    by (simp add: listings_of_def example_store_def listing_def owned_by_def field_def)
  have r: "required_fields (flat_request 80)"
    by (simp add: required_fields_def flat_request_def field_def)
  from basic_plan_listing_cap[of "alice_sub (JStr ''basic'')" "''alice''" example_store
      example_host "jan 1" "''p4''" "flat_request 80"]
    basic_plan_listing_cap[of "alice_sub (JStr ''premium'')" "''alice''" example_store
      example_host "jan 1" "''p4''" "flat_request 80"]
    b p n r
  show ?thesis by blast
qed

section \<open>Listing update\<close>

lemma update_property_found:
  assumes "findIndex (has_id (JStr pid)) (properties_of st) = Some i"
    and "field (properties_of st ! i) ''ownerId'' = JStr uid"
  shows "update_property h now uid pid body st =
     (Inr (PropertyR (((properties_of st ! i) ++ body)
             (''id'' := (properties_of st ! i) ''id'',
              ''ownerId'' := (properties_of st ! i) ''ownerId'',
              ''updatedAt'' \<mapsto> JStr (toISOString h now)))),
      st\<lparr>properties_file := writeData ((properties_of st)
            [i := ((properties_of st ! i) ++ body)
               (''id'' := (properties_of st ! i) ''id'',
                ''ownerId'' := (properties_of st ! i) ''ownerId'',
                ''updatedAt'' \<mapsto> JStr (toISOString h now))])\<rparr>)"
  using assms by (simp add: update_property_def properties_of_def Let_def owned_by_iff)

lemma read_back_properties:
  "properties_of (st\<lparr>properties_file := writeData ps\<rparr>) = ps"
  "subscriptions_of (st\<lparr>properties_file := writeData ps\<rparr>) = subscriptions_of st"
  "bookings_of (st\<lparr>properties_file := writeData ps\<rparr>) = bookings_of st"
  by (simp_all add: properties_of_def subscriptions_of_def bookings_of_def writeData_def)

text \<open>
  C8.  Listing update answers \<open>NotFound\<close> when no property has the given id.  Otherwise it
  locates the first property with that id; when its \<open>ownerId\<close> is not the caller the answer
  is \<open>Forbidden\<close>; in both cases the store is unchanged.  When the caller is the owner, the
  properties read back from the store afterwards are the old ones with the located record
  replaced, at its position, by the old record overridden by the request body, except that
  \<open>id\<close> and \<open>ownerId\<close> keep their old values whatever the body holds and \<open>updatedAt\<close> is the
  time of the request; every other property read back is the one that was there, and the
  subscriptions and the bookings read back are as before.
\<close>

theorem update_property_frame:
  "((\<forall>p\<in>set (properties_of st). \<not> has_id (JStr pid) p) \<longrightarrow>
      update_property h now uid pid body st = (Inl NotFound, st)) \<and>
   ((\<exists>p\<in>set (properties_of st). has_id (JStr pid) p) \<longrightarrow>
      (\<exists>i < length (properties_of st).
         has_id (JStr pid) (properties_of st ! i) \<and>
         (\<forall>j<i. \<not> has_id (JStr pid) (properties_of st ! j)) \<and>
         (field (properties_of st ! i) ''ownerId'' \<noteq> JStr uid \<longrightarrow>
            update_property h now uid pid body st = (Inl Forbidden, st)) \<and>
         (field (properties_of st ! i) ''ownerId'' = JStr uid \<longrightarrow>
            (\<exists>p'. fst (update_property h now uid pid body st) = Inr (PropertyR p') \<and>
                   properties_of (snd (update_property h now uid pid body st)) ! i = p' \<and>
                   length (properties_of (snd (update_property h now uid pid body st))) =
                     length (properties_of st) \<and>
                   (\<forall>j < length (properties_of st). j \<noteq> i \<longrightarrow>
                      properties_of (snd (update_property h now uid pid body st)) ! j =
                        properties_of st ! j) \<and>
                   subscriptions_of (snd (update_property h now uid pid body st)) =
                     subscriptions_of st \<and>
                   bookings_of (snd (update_property h now uid pid body st)) = bookings_of st \<and>
                   p' ''id'' = (properties_of st ! i) ''id'' \<and>
                   p' ''ownerId'' = (properties_of st ! i) ''ownerId'' \<and>
                   p' ''updatedAt'' = Some (JStr (toISOString h now)) \<and>
                   (\<forall>k. k \<notin> {''id'', ''ownerId'', ''updatedAt''} \<longrightarrow>
                      p' k = (case body k of Some v \<Rightarrow> Some v
                              | None \<Rightarrow> (properties_of st ! i) k))))))"
proof (intro conjI impI)
  assume "\<forall>p\<in>set (properties_of st). \<not> has_id (JStr pid) p"
  then have "findIndex (has_id (JStr pid)) (properties_of st) = None"
    by (simp add: findIndex_None_iff)
  then show "update_property h now uid pid body st = (Inl NotFound, st)"
    by (simp add: update_property_def properties_of_def)
next
  assume "\<exists>p\<in>set (properties_of st). has_id (JStr pid) p"
  then have "findIndex (has_id (JStr pid)) (properties_of st) \<noteq> None"
    by (simp add: findIndex_None_iff)
  then obtain i where i: "findIndex (has_id (JStr pid)) (properties_of st) = Some i"
    by blast
  note d = findIndex_SomeD[OF i]
  let ?p = "properties_of st ! i"
  let ?p' = "(?p ++ body)(''id'' := ?p ''id'', ''ownerId'' := ?p ''ownerId'',
               ''updatedAt'' \<mapsto> JStr (toISOString h now))"
  let ?st' = "snd (update_property h now uid pid body st)"
  have forbidden: "update_property h now uid pid body st = (Inl Forbidden, st)"
    if "field ?p ''ownerId'' \<noteq> JStr uid"
    using that i by (simp add: update_property_def properties_of_def Let_def owned_by_iff)
  have merged: "\<exists>p'. fst (update_property h now uid pid body st) = Inr (PropertyR p') \<and>
        properties_of ?st' ! i = p' \<and>
        length (properties_of ?st') = length (properties_of st) \<and>
        (\<forall>j < length (properties_of st). j \<noteq> i \<longrightarrow>
           properties_of ?st' ! j = properties_of st ! j) \<and>
        subscriptions_of ?st' = subscriptions_of st \<and>
        bookings_of ?st' = bookings_of st \<and>
        p' ''id'' = ?p ''id'' \<and> p' ''ownerId'' = ?p ''ownerId'' \<and>
        p' ''updatedAt'' = Some (JStr (toISOString h now)) \<and>
        (\<forall>k. k \<notin> {''id'', ''ownerId'', ''updatedAt''} \<longrightarrow>
           p' k = (case body k of Some v \<Rightarrow> Some v | None \<Rightarrow> ?p k))"
    if o: "field ?p ''ownerId'' = JStr uid"
  proof (intro exI[of _ ?p'] conjI)
    note u = update_property_found[OF i o, of h now body]
    show "fst (update_property h now uid pid body st) = Inr (PropertyR ?p')"
      by (simp add: u)
    show "properties_of ?st' ! i = ?p'"
      using d by (simp add: u read_back_properties)
    show "length (properties_of ?st') = length (properties_of st)"
      by (simp add: u read_back_properties)
    show "\<forall>j < length (properties_of st). j \<noteq> i \<longrightarrow>
           properties_of ?st' ! j = properties_of st ! j"
      by (simp add: u read_back_properties)
    show "subscriptions_of ?st' = subscriptions_of st"
      by (simp add: u read_back_properties)
    show "bookings_of ?st' = bookings_of st"
      by (simp add: u read_back_properties)
    show "\<forall>k. k \<notin> {''id'', ''ownerId'', ''updatedAt''} \<longrightarrow>
        ?p' k = (case body k of Some v \<Rightarrow> Some v | None \<Rightarrow> ?p k)"
      by (auto simp: map_add_def split: option.splits)
  qed simp_all
  from d forbidden merged
  show "\<exists>i < length (properties_of st).
         has_id (JStr pid) (properties_of st ! i) \<and>
         (\<forall>j<i. \<not> has_id (JStr pid) (properties_of st ! j)) \<and>
         (field (properties_of st ! i) ''ownerId'' \<noteq> JStr uid \<longrightarrow>
            update_property h now uid pid body st = (Inl Forbidden, st)) \<and>
         (field (properties_of st ! i) ''ownerId'' = JStr uid \<longrightarrow>
            (\<exists>p'. fst (update_property h now uid pid body st) = Inr (PropertyR p') \<and>
                   properties_of (snd (update_property h now uid pid body st)) ! i = p' \<and>
                   length (properties_of (snd (update_property h now uid pid body st))) =
                     length (properties_of st) \<and>
                   (\<forall>j < length (properties_of st). j \<noteq> i \<longrightarrow>
                      properties_of (snd (update_property h now uid pid body st)) ! j =
                        properties_of st ! j) \<and>
                   subscriptions_of (snd (update_property h now uid pid body st)) =
                     subscriptions_of st \<and>
                   bookings_of (snd (update_property h now uid pid body st)) = bookings_of st \<and>
                   p' ''id'' = (properties_of st ! i) ''id'' \<and>
                   p' ''ownerId'' = (properties_of st ! i) ''ownerId'' \<and>
                   p' ''updatedAt'' = Some (JStr (toISOString h now)) \<and>
                   (\<forall>k. k \<notin> {''id'', ''ownerId'', ''updatedAt''} \<longrightarrow>
                      p' k = (case body k of Some v \<Rightarrow> Some v
                              | None \<Rightarrow> (properties_of st ! i) k))))"
    by (intro exI[of _ i]) blast
qed

lemma example_p2_index:
  assumes "i < length (properties_of example_store)"
    and "has_id (JStr ''p2'') (properties_of example_store ! i)"
  shows "i = 1"
proof -
  from assms(1) have "i = 0 \<or> i = 1 \<or> i = 2"
    by (auto simp: example_properties)
  with assms(2) show ?thesis
    by (auto simp: example_properties has_id_def listing_fields)
qed

theorem update_property_frame_witness:
  "\<not> (\<exists>p\<in>set (properties_of example_store). has_id (JStr ''p9'') p) \<and>
   update_property example_host (jan 1) ''alice'' ''p9'' patch example_store =
     (Inl NotFound, example_store) \<and>
   (\<exists>p\<in>set (properties_of example_store). has_id (JStr ''p2'') p) \<and>
   update_property example_host (jan 1) ''bob'' ''p2'' patch example_store =
     (Inl Forbidden, example_store) \<and>
   length (properties_of
     (snd (update_property example_host (jan 1) ''alice'' ''p2'' patch example_store))) = 3 \<and>
   properties_of
     (snd (update_property example_host (jan 1) ''alice'' ''p2'' patch example_store)) ! 0 =
     listing ''p1'' ''alice'' True \<and>
   field (properties_of
     (snd (update_property example_host (jan 1) ''alice'' ''p2'' patch example_store)) ! 1)
     ''id'' = JStr ''p2'' \<and>
   field (properties_of
     (snd (update_property example_host (jan 1) ''alice'' ''p2'' patch example_store)) ! 1)
     ''ownerId'' = JStr ''alice'' \<and>
   field (properties_of
     (snd (update_property example_host (jan 1) ''alice'' ''p2'' patch example_store)) ! 1)
     ''title'' = JStr ''Loft'' \<and>
   properties_of
     (snd (update_property example_host (jan 1) ''alice'' ''p2'' patch example_store)) ! 2 =
     listing ''p3'' ''alice'' False"
proof -
  let ?st' = "snd (update_property example_host (jan 1) ''alice'' ''p2'' patch example_store)"
  have none: "\<forall>p\<in>set (properties_of example_store). \<not> has_id (JStr ''p9'') p"
    by (simp add: example_properties has_id_def listing_fields)
  have some: "\<exists>p\<in>set (properties_of example_store). has_id (JStr ''p2'') p"
    by (simp add: example_properties has_id_def listing_fields)
  have owner: "field (properties_of example_store ! i) ''ownerId'' = JStr ''alice''"
    if "i < length (properties_of example_store)" for i
    using that by (auto simp: example_properties listing_fields nth_Cons less_Suc_eq split: nat.splits)
  have t: "patch ''title'' = Some (JStr ''Loft'')" "''title'' \<notin> {''id'', ''ownerId'', ''updatedAt''}"
    by (simp_all add: patch_def)
  from update_property_frame[of example_store "''p9''" example_host "jan 1" "''alice''" patch] none
  have 1: "update_property example_host (jan 1) ''alice'' ''p9'' patch example_store =
     (Inl NotFound, example_store)" by blast
  have notbob: "field (properties_of example_store ! i) ''ownerId'' \<noteq> JStr ''bob''"
    if "i < length (properties_of example_store)" for i
    using owner[OF that] by simp
  note forb = update_property_frame[of example_store "''p2''" example_host "jan 1" "''bob''" patch,
      THEN conjunct2, THEN mp, OF some]
  then obtain j where j: "j < length (properties_of example_store)"
    "field (properties_of example_store ! j) ''ownerId'' \<noteq> JStr ''bob'' \<longrightarrow>
            update_property example_host (jan 1) ''bob'' ''p2'' patch example_store =
              (Inl Forbidden, example_store)"
    by (elim exE conjE)
  with notbob[of j]
  have 2: "update_property example_host (jan 1) ''bob'' ''p2'' patch example_store =
     (Inl Forbidden, example_store)" by (rule_tac mp)
  note upd = update_property_frame[of example_store "''p2''" example_host "jan 1" "''alice''" patch,
      THEN conjunct2, THEN mp, OF some]
  then obtain i where i: "i < length (properties_of example_store)"
    "has_id (JStr ''p2'') (properties_of example_store ! i)"
    "field (properties_of example_store ! i) ''ownerId'' = JStr ''alice'' \<longrightarrow>
      (\<exists>p'. fst (update_property example_host (jan 1) ''alice'' ''p2'' patch example_store) =
               Inr (PropertyR p') \<and>
             properties_of ?st' ! i = p' \<and>
             length (properties_of ?st') = length (properties_of example_store) \<and>
             (\<forall>j < length (properties_of example_store). j \<noteq> i \<longrightarrow>
                properties_of ?st' ! j = properties_of example_store ! j) \<and>
             subscriptions_of ?st' = subscriptions_of example_store \<and>
             bookings_of ?st' = bookings_of example_store \<and>
             p' ''id'' = (properties_of example_store ! i) ''id'' \<and>
             p' ''ownerId'' = (properties_of example_store ! i) ''ownerId'' \<and>
             p' ''updatedAt'' = Some (JStr (toISOString example_host (jan 1))) \<and>
             (\<forall>k. k \<notin> {''id'', ''ownerId'', ''updatedAt''} \<longrightarrow>
                p' k = (case patch k of Some v \<Rightarrow> Some v
                        | None \<Rightarrow> (properties_of example_store ! i) k)))"
    by (elim exE conjE)
  from example_p2_index[OF i(1,2)] have i1: "i = 1" .
  from i(3) owner[OF i(1)] obtain p' where p':
    "properties_of ?st' ! i = p'"
    "length (properties_of ?st') = length (properties_of example_store)"
    "\<forall>j < length (properties_of example_store). j \<noteq> i \<longrightarrow>
        properties_of ?st' ! j = properties_of example_store ! j"
    "p' ''id'' = (properties_of example_store ! i) ''id''"
    "p' ''ownerId'' = (properties_of example_store ! i) ''ownerId''"
    "\<forall>k. k \<notin> {''id'', ''ownerId'', ''updatedAt''} \<longrightarrow>
        p' k = (case patch k of Some v \<Rightarrow> Some v | None \<Rightarrow> (properties_of example_store ! i) k)"
    by (elim impE exE conjE)
  from p'(6) t have title: "p' ''title'' = Some (JStr ''Loft'')" by simp
  from p'(2) have 3: "length (properties_of ?st') = 3"
    by (simp add: example_properties)
  from p'(3) i1 have 4: "properties_of ?st' ! 0 = listing ''p1'' ''alice'' True"
    and 8: "properties_of ?st' ! 2 = listing ''p3'' ''alice'' False"
    by (simp_all add: example_properties)
  from p'(1,4,5) title i1 i(2) owner[OF i(1)]
  have 5: "field (properties_of ?st' ! 1) ''id'' = JStr ''p2''"
    and 6: "field (properties_of ?st' ! 1) ''ownerId'' = JStr ''alice''"
    and 7: "field (properties_of ?st' ! 1) ''title'' = JStr ''Loft''"
    by (simp_all add: field_def has_id_def)
  from none have none': "\<not> (\<exists>p\<in>set (properties_of example_store). has_id (JStr ''p9'') p)"
    by blast
  from none' some 1 2 3 4 5 6 7 8 show ?thesis by blast
qed

section \<open>Booking status\<close>

lemma read_back_bookings:
  "bookings_of (st\<lparr>bookings_file := writeData bs\<rparr>) = bs"
  "properties_of (st\<lparr>bookings_file := writeData bs\<rparr>) = properties_of st"
  "subscriptions_of (st\<lparr>bookings_file := writeData bs\<rparr>) = subscriptions_of st"
  by (simp_all add: properties_of_def subscriptions_of_def bookings_of_def writeData_def)

lemma update_booking_status_refused:
  assumes "findIndex (\<lambda>b. b_id b = bid) (bookings_of st) = Some i"
    and "\<not> owns_property_of uid (bookings_of st ! i) st"
  shows "update_booking_status uid bid body st = (Inl Forbidden, st)"
  using assms
  by (auto simp: update_booking_status_def owns_property_of_def bookings_of_def properties_of_def
      Let_def split: option.splits)

lemma update_booking_status_stored:
  assumes "findIndex (\<lambda>b. b_id b = bid) (bookings_of st) = Some i"
    and "owns_property_of uid (bookings_of st ! i) st"
  shows "update_booking_status uid bid body st =
      (Inr (BookingR ((bookings_of st ! i)\<lparr>b_status := field body ''status''\<rparr>)),
       st\<lparr>bookings_file :=
            writeData ((bookings_of st)
              [i := (bookings_of st ! i)\<lparr>b_status := field body ''status''\<rparr>])\<rparr>)"
  using assms
  by (auto simp: update_booking_status_def owns_property_of_def bookings_of_def properties_of_def
      Let_def split: option.splits)

text \<open>
  C6.  For an existing booking, \<open>updateStatus\<close> looks up the booking's property and compares
  its \<open>ownerId\<close> with the requester.  A requester who is not that owner (the guest who made
  the booking included) gets \<open>Forbidden\<close> from the handler, never succeeds at the endpoint,
  and the bookings read back afterwards are unchanged.  The call succeeds exactly for the
  owner, and then the booking read back from the store has the \<open>status\<close> of the request body
  as it is, whatever string that is; the other bookings, the properties and the
  subscriptions read back are as before.
\<close>

theorem update_status_owner_only:
  assumes "findIndex (\<lambda>b. b_id b = bid) (bookings_of st) = Some i"
  shows "(\<not> owns_property_of uid (bookings_of st ! i) st \<longrightarrow>
            update_booking_status uid bid body st = (Inl Forbidden, st) \<and>
            (\<exists>e. fst (step h (UpdateBookingStatus uid now bid body) st) = Inl e) \<and>
            bookings_of (snd (step h (UpdateBookingStatus uid now bid body) st)) =
              bookings_of st) \<and>
         (owns_property_of uid (bookings_of st ! i) st \<longrightarrow>
            fst (update_booking_status uid bid body st) =
              Inr (BookingR ((bookings_of st ! i)\<lparr>b_status := field body ''status''\<rparr>)) \<and>
            bookings_of (snd (update_booking_status uid bid body st)) ! i =
              (bookings_of st ! i)\<lparr>b_status := field body ''status''\<rparr> \<and>
            b_status (bookings_of (snd (update_booking_status uid bid body st)) ! i) =
              field body ''status'' \<and>
            length (bookings_of (snd (update_booking_status uid bid body st))) =
              length (bookings_of st) \<and>
            (\<forall>j < length (bookings_of st). j \<noteq> i \<longrightarrow>
               bookings_of (snd (update_booking_status uid bid body st)) ! j =
                 bookings_of st ! j) \<and>
            properties_of (snd (update_booking_status uid bid body st)) = properties_of st \<and>
            subscriptions_of (snd (update_booking_status uid bid body st)) =
              subscriptions_of st) \<and>
         ((\<exists>r. fst (update_booking_status uid bid body st) = Inr r) \<longleftrightarrow>
            owns_property_of uid (bookings_of st ! i) st) \<and>
         (\<forall>s. owns_property_of uid (bookings_of st ! i) st \<longrightarrow>
            b_status (bookings_of
              (snd (update_booking_status uid bid [''status'' \<mapsto> JStr s] st)) ! i) = JStr s)"
proof -
  let ?b = "bookings_of st ! i"
  note d = findIndex_SomeD[OF assms]
  note no = update_booking_status_refused[OF assms]
  note yes = update_booking_status_stored[OF assms]
  have endpoint: "(\<exists>e. fst (step h (UpdateBookingStatus uid now bid body) st) = Inl e) \<and>
      bookings_of (snd (step h (UpdateBookingStatus uid now bid body) st)) = bookings_of st"
    if "\<not> owns_property_of uid ?b st"
    using gated_cases[of now uid "\<lambda>sub. update_booking_status uid bid body" st]
      no[OF that, of body] checkSubscription_other_files[of now uid st]
    by (auto simp: bookings_of_def)
  have stored: "fst (update_booking_status uid bid body st) =
        Inr (BookingR (?b\<lparr>b_status := field body ''status''\<rparr>)) \<and>
      bookings_of (snd (update_booking_status uid bid body st)) ! i =
        ?b\<lparr>b_status := field body ''status''\<rparr> \<and>
      b_status (bookings_of (snd (update_booking_status uid bid body st)) ! i) =
        field body ''status'' \<and>
      length (bookings_of (snd (update_booking_status uid bid body st))) =
        length (bookings_of st) \<and>
      (\<forall>j < length (bookings_of st). j \<noteq> i \<longrightarrow>
         bookings_of (snd (update_booking_status uid bid body st)) ! j = bookings_of st ! j) \<and>
      properties_of (snd (update_booking_status uid bid body st)) = properties_of st \<and>
      subscriptions_of (snd (update_booking_status uid bid body st)) = subscriptions_of st"
    if "owns_property_of uid ?b st" for body
    using d by (simp add: yes[OF that] read_back_bookings)
  have iff: "(\<exists>r. fst (update_booking_status uid bid body st) = Inr r) \<longleftrightarrow>
      owns_property_of uid ?b st"
    using no[of uid body] yes[of uid body] by (cases "owns_property_of uid ?b st") auto
  have any: "b_status (bookings_of
        (snd (update_booking_status uid bid [''status'' \<mapsto> JStr s] st)) ! i) = JStr s"
    if "owns_property_of uid ?b st" for s
    using stored[OF that, of "[''status'' \<mapsto> JStr s]"] by (simp add: field_def)
  show ?thesis
    using no[of uid body] stored[of body] endpoint iff any by blast
qed

theorem update_status_owner_only_witness:
  "findIndex (\<lambda>b. b_id b = ''b1'') (bookings_of example_store) = Some 0 \<and>
   b_userId (bookings_of example_store ! 0) = ''bob'' \<and>
   \<not> owns_property_of ''bob'' (bookings_of example_store ! 0) example_store \<and>
   update_booking_status ''bob'' ''b1'' [''status'' \<mapsto> JStr ''cancelled''] example_store =
     (Inl Forbidden, example_store) \<and>
   bookings_of (snd (step example_host
       (UpdateBookingStatus ''bob'' (jan 2) ''b1'' [''status'' \<mapsto> JStr ''cancelled''])
       example_store)) = [stay ''b1'' ''p1'' (jan 10) (jan 15) ''confirmed''] \<and>
   owns_property_of ''alice'' (bookings_of example_store ! 0) example_store \<and>
   fst (update_booking_status ''alice'' ''b1'' [''status'' \<mapsto> JStr ''no such status''] example_store) =
     Inr (BookingR (stay ''b1'' ''p1'' (jan 10) (jan 15) ''no such status'')) \<and>
   bookings_of
     (snd (update_booking_status ''alice'' ''b1'' [''status'' \<mapsto> JStr ''no such status'']
        example_store)) ! 0 = stay ''b1'' ''p1'' (jan 10) (jan 15) ''no such status'' \<and>
   length (bookings_of
     (snd (update_booking_status ''alice'' ''b1'' [''status'' \<mapsto> JStr ''no such status'']
        example_store))) = 1"
proof -
  let ?cancel = "[''status'' \<mapsto> JStr ''cancelled'']"
  let ?odd = "[''status'' \<mapsto> JStr ''no such status'']"
  have i: "findIndex (\<lambda>b. b_id b = ''b1'') (bookings_of example_store) = Some 0"
    by (simp add: example_bookings stay_def)
  have g: "b_userId (bookings_of example_store ! 0) = ''bob''"
    by (simp add: example_bookings stay_def)
  have nb: "\<not> owns_property_of ''bob'' (bookings_of example_store ! 0) example_store"
    and a: "owns_property_of ''alice'' (bookings_of example_store ! 0) example_store"
    by (simp_all add: example_bookings example_owner)
  have s: "(bookings_of example_store ! 0)\<lparr>b_status := field ?odd ''status''\<rparr> =
           stay ''b1'' ''p1'' (jan 10) (jan 15) ''no such status''"
    by (simp add: example_bookings stay_def field_def)
  note bob = update_status_owner_only[OF i, of "''bob''" ?cancel example_host "jan 2",
      THEN conjunct1, THEN mp, OF nb]
  from bob have 1: "update_booking_status ''bob'' ''b1'' ?cancel example_store =
     (Inl Forbidden, example_store)" by (rule conjunct1)
  from bob have 2: "bookings_of (snd (step example_host
       (UpdateBookingStatus ''bob'' (jan 2) ''b1'' ?cancel) example_store)) =
     [stay ''b1'' ''p1'' (jan 10) (jan 15) ''confirmed'']"
    by (simp add: example_bookings del: step.simps)
  note alice = update_status_owner_only[OF i, of "''alice''" ?odd example_host "jan 2",
      THEN conjunct2, THEN conjunct1, THEN mp, OF a]
  from alice s have 3: "fst (update_booking_status ''alice'' ''b1'' ?odd example_store) =
     Inr (BookingR (stay ''b1'' ''p1'' (jan 10) (jan 15) ''no such status''))"
    by simp
  from alice s have 4: "bookings_of (snd (update_booking_status ''alice'' ''b1'' ?odd
        example_store)) ! 0 = stay ''b1'' ''p1'' (jan 10) (jan 15) ''no such status''"
    by simp
  from alice have 5: "length (bookings_of (snd (update_booking_status ''alice'' ''b1'' ?odd
        example_store))) = 1"
    by (simp add: example_bookings)
  from i g nb 1 2 a 3 4 5 show ?thesis by blast
qed

section \<open>Booking creation and the life of a booking\<close>

lemma gated_bookings:
  assumes "\<And>sub. bookings_file (snd (f sub st)) = bookings_file st"
  shows "bookings_file (snd (gated now uid f st)) = bookings_file st"
  using gated_cases[of now uid f st] checkSubscription_other_files[of now uid st] assms
  by auto

lemma subscribe_other_files:
  "properties_file (snd (subscribe h now newId uid body st)) = properties_file st \<and>
   bookings_file (snd (subscribe h now newId uid body st)) = bookings_file st"
  by (simp add: subscribe_def Let_def split: option.splits)

lemma create_property_bookings:
  "bookings_file (snd (create_property h now newId uid body sub st)) = bookings_file st"
  by (simp add: create_property_def Let_def)

lemma update_property_bookings:
  "bookings_file (snd (update_property h now uid pid body st)) = bookings_file st"
  by (simp add: update_property_def Let_def split: option.splits)

lemma delete_property_bookings:
  "bookings_file (snd (delete_property uid pid st)) = bookings_file st"
  by (simp add: delete_property_def Let_def split: option.splits)

lemma create_booking_cases:
  "(\<exists>e. create_booking h now newId uid body st = (Inl e, st)) \<or>
   (\<exists>p b. create_booking h now newId uid body st =
             (Inr (BookingR b), st\<lparr>bookings_file := writeData (bookings_of st @ [b])\<rparr>) \<and>
          find (has_id (field body ''propertyId'')) (properties_of st) = Some p \<and>
          b_id b = newId \<and> b_userId b = uid \<and>
          b_status b = (if truthy (field p ''instant'') then JStr ''confirmed''
                        else JStr ''pending''))"
  by (auto simp: create_booking_def Let_def bookings_of_def properties_of_def
      split: option.splits)

lemma bookings_of_write [simp]:
  "bookings_of (st\<lparr>bookings_file := writeData bs\<rparr>) = bs"
  by (simp add: bookings_of_def writeData_def)

lemma step_bookings_prefix:
  assumes "\<not> is_update_status r"
  shows "prefix (bookings_of st) (bookings_of (snd (step h r st)))"
proof (cases r)
  case (CreateBooking uid now newId body)
  with create_booking_cases[of h now newId uid body st] show ?thesis
    by auto
next
  case (UpdateBookingStatus uid now bid body)
  with assms show ?thesis by simp
qed (simp_all add: bookings_of_def subscribe_other_files my_subscription_def get_properties_def
      get_property_def my_bookings_def gated_bookings create_property_bookings
      update_property_bookings delete_property_bookings my_listings_def
      my_property_bookings_def Let_def split: option.splits)

lemma run_bookings_prefix:
  "\<forall>r\<in>set rs. \<not> is_update_status r \<Longrightarrow> prefix (bookings_of st) (bookings_of (run h rs st))"
proof (induction rs arbitrary: st)
  case Nil
  then show ?case by simp
next
  case (Cons r rs)
  have "prefix (bookings_of st) (bookings_of (snd (step h r st)))"
    using Cons.prems by (simp add: step_bookings_prefix)
  moreover have "prefix (bookings_of (snd (step h r st))) (bookings_of (run h rs (snd (step h r st))))"
    using Cons.prems by (intro Cons.IH) simp
  ultimately show ?case by simp
qed

text \<open>
  C7.  A booking that is created gets the status \<open>confirmed\<close> when the \<open>instant\<close> flag of the
  booked property is true (truthy, as the code tests it) and \<open>pending\<close> otherwise, and it is
  appended to the bookings.  No sequence of requests without an \<open>updateStatus\<close> changes a
  booking that is already stored: a pending booking stays pending.
\<close>

theorem booking_status_lifecycle:
  "(\<forall>r st'. create_booking h now newId uid body st = (Inr r, st') \<longrightarrow>
      (\<exists>p b. r = BookingR b \<and>
             find (has_id (field body ''propertyId'')) (properties_of st) = Some p \<and>
             b_status b = (if truthy (field p ''instant'') then JStr ''confirmed''
                           else JStr ''pending'') \<and>
             bookings_of st' = bookings_of st @ [b])) \<and>
   (\<forall>rs. (\<forall>r\<in>set rs. \<not> is_update_status r) \<longrightarrow>
      (\<forall>i < length (bookings_of st).
         i < length (bookings_of (run h rs st)) \<and>
         bookings_of (run h rs st) ! i = bookings_of st ! i))"
proof (intro conjI allI impI)
  fix r st'
  assume "create_booking h now newId uid body st = (Inr r, st')"
  with create_booking_cases[of h now newId uid body st]
  show "\<exists>p b. r = BookingR b \<and>
             find (has_id (field body ''propertyId'')) (properties_of st) = Some p \<and>
             b_status b = (if truthy (field p ''instant'') then JStr ''confirmed''
                           else JStr ''pending'') \<and>
             bookings_of st' = bookings_of st @ [b]"
    by auto
next
  fix rs i
  assume "\<forall>r\<in>set rs. \<not> is_update_status r" and i: "i < length (bookings_of st)"
  then have "prefix (bookings_of st) (bookings_of (run h rs st))"
    by (simp add: run_bookings_prefix)
  then obtain zs where "bookings_of (run h rs st) = bookings_of st @ zs"
    by (auto simp: prefix_def)
  with i show "i < length (bookings_of (run h rs st))"
    and "bookings_of (run h rs st) ! i = bookings_of st ! i"
    by (simp_all add: nth_append)
qed

lemma example_create_booking:
  "\<exists>b. create_booking example_host (jan 1) ''b2'' ''bob''
      (booking_request pid (jan 15) (jan 20)) example_store = (Inr (BookingR b),
       example_store\<lparr>bookings_file := writeData (bookings_of example_store @ [b])\<rparr>)"
  if "pid = ''p1'' \<or> pid = ''p2''"
  using that
  by (auto simp add: create_booking_def Let_def booking_request_fields example_newDate
      example_properties[unfolded properties_of_def] example_bookings
      has_id_def listing_fields conflicts_def stay_def date_lt_def date_le_def date_gt_def date_ge_def
      jan_def msPerDay_def bookings_of_def[symmetric])

lemma example_find:
  "find (has_id (JStr ''p1'')) (properties_of example_store) = Some (listing ''p1'' ''alice'' True)"
  "find (has_id (JStr ''p2'')) (properties_of example_store) = Some (listing ''p2'' ''alice'' False)"
  by (simp_all add: example_properties has_id_def listing_fields)

theorem booking_status_lifecycle_witness:
  "(\<exists>b st'. create_booking example_host (jan 1) ''b2'' ''bob''
        (booking_request ''p1'' (jan 15) (jan 20)) example_store = (Inr (BookingR b), st') \<and>
      b_status b = JStr ''confirmed'') \<and>
   (\<exists>b st'. create_booking example_host (jan 1) ''b2'' ''bob''
        (booking_request ''p2'' (jan 15) (jan 20)) example_store = (Inr (BookingR b), st') \<and>
      b_status b = JStr ''pending'') \<and>
   \<not> (\<exists>r\<in>set [CreateBooking ''bob'' (jan 1) ''b2'' (booking_request ''p2'' (jan 15) (jan 20)),
              DeleteProperty ''alice'' (jan 2) ''p1''].
      is_update_status r) \<and>
   bookings_of (run example_host
     [CreateBooking ''bob'' (jan 1) ''b2'' (booking_request ''p2'' (jan 15) (jan 20)),
      DeleteProperty ''alice'' (jan 2) ''p1''] example_store) ! 0 =
     stay ''b1'' ''p1'' (jan 10) (jan 15) ''confirmed''"
proof -
  from example_create_booking[of "''p1''"] obtain b1 st1 where
    1: "create_booking example_host (jan 1) ''b2'' ''bob''
        (booking_request ''p1'' (jan 15) (jan 20)) example_store = (Inr (BookingR b1), st1)"
    by auto
  from booking_status_lifecycle[of example_host "jan 1" "''b2''" "''bob''"
      "booking_request ''p1'' (jan 15) (jan 20)" example_store, THEN conjunct1, rule_format, OF 1]
  have c1: "b_status b1 = JStr ''confirmed''"
    by (auto simp: booking_request_fields example_find listing_fields)
  from example_create_booking[of "''p2''"] obtain b2 st2 where
    2: "create_booking example_host (jan 1) ''b2'' ''bob''
        (booking_request ''p2'' (jan 15) (jan 20)) example_store = (Inr (BookingR b2), st2)"
    by auto
  from booking_status_lifecycle[of example_host "jan 1" "''b2''" "''bob''"
      "booking_request ''p2'' (jan 15) (jan 20)" example_store, THEN conjunct1, rule_format, OF 2]
  have c2: "b_status b2 = JStr ''pending''"
    by (auto simp: booking_request_fields example_find listing_fields)
  let ?rs = "[CreateBooking ''bob'' (jan 1) ''b2'' (booking_request ''p2'' (jan 15) (jan 20)),
              DeleteProperty ''alice'' (jan 2) ''p1'']"
  have n: "\<forall>r\<in>set ?rs. \<not> is_update_status r" by simp
  have l: "0 < length (bookings_of example_store)" by (simp add: example_bookings)
  from booking_status_lifecycle[of example_host "jan 1" "''b2''" "''bob''"
      "booking_request ''p2'' (jan 15) (jan 20)" example_store, THEN conjunct2, THEN spec, THEN mp, OF n, THEN spec, THEN mp, OF l]
  have 3: "bookings_of (run example_host ?rs example_store) ! 0 =
     stay ''b1'' ''p1'' (jan 10) (jan 15) ''confirmed''"
    by (simp add: example_bookings del: run.simps)
  from 1 c1 2 c2 n 3 show ?thesis by blast
qed

section \<open>Conflicting dates\<close>

lemma conflicts_Some:
  "conflicts pid (Some a) (Some b) bk \<longleftrightarrow>
     strict_eq (b_propertyId bk) pid \<and> b_status bk = JStr ''confirmed'' \<and>
     ((b_checkIn bk \<le> a \<and> a < b_checkOut bk) \<or>
      (b_checkIn bk < b \<and> b \<le> b_checkOut bk) \<or>
      (a \<le> b_checkIn bk \<and> b_checkOut bk \<le> b))"
  by (auto simp: conflicts_def Let_def date_lt_def date_le_def date_gt_def date_ge_def)

lemma find_exists: "\<exists>x\<in>set xs. P x \<Longrightarrow> \<exists>y. find P xs = Some y"
  by (cases "find P xs") (auto simp: find_None_iff)

lemma create_booking_conflict:
  assumes "truthy (field body ''propertyId'')" "truthy (field body ''checkIn'')"
    "truthy (field body ''checkOut'')"
    and "\<exists>p\<in>set (properties_of st). has_id (field body ''propertyId'') p"
    and "\<exists>bk\<in>set (bookings_of st).
           conflicts (field body ''propertyId'') (newDate h (field body ''checkIn''))
             (newDate h (field body ''checkOut'')) bk"
  shows "create_booking h now newId uid body st = (Inl DatesUnavailable, st)"
proof -
  from find_exists[OF assms(4)] obtain p where
    "find (has_id (field body ''propertyId'')) (readData (properties_file st)) = Some p"
    by (auto simp: properties_of_def)
  moreover from find_exists[OF assms(5)] obtain c where
    "find (conflicts (field body ''propertyId'') (newDate h (field body ''checkIn''))
             (newDate h (field body ''checkOut''))) (readData (bookings_file st)) = Some c"
    by (auto simp: bookings_of_def)
  ultimately show ?thesis
    using assms(1-3) by (simp add: create_booking_def Let_def)
qed

text \<open>
  C1 (as amended).  For a candidate with check-in before check-out and an existing booking with
  check-in before check-out, the candidate conflicts with the booking if and only if the
  booking is for the same property, has status \<open>confirmed\<close>, and the half-open intervals
  overlap (\<open>a < d\<close> and \<open>c < b\<close>).  For any two intervals that overlap condition is sufficient
  for a conflict.  Whenever some stored booking conflicts with a request that names an
  existing property, creation answers \<open>DatesUnavailable\<close> and the store is unchanged.
\<close>

theorem conflict_detection:
  "(a < b \<and> b_checkIn bk < b_checkOut bk \<longrightarrow>
      (conflicts pid (Some a) (Some b) bk \<longleftrightarrow>
         strict_eq (b_propertyId bk) pid \<and> b_status bk = JStr ''confirmed'' \<and>
         overlap_spec a b (b_checkIn bk) (b_checkOut bk))) \<and>
   (strict_eq (b_propertyId bk) pid \<and> b_status bk = JStr ''confirmed'' \<and>
    overlap_spec a b (b_checkIn bk) (b_checkOut bk) \<longrightarrow>
      conflicts pid (Some a) (Some b) bk) \<and>
   (truthy (field body ''propertyId'') \<and> truthy (field body ''checkIn'') \<and>
    truthy (field body ''checkOut'') \<and>
    (\<exists>p\<in>set (properties_of st). has_id (field body ''propertyId'') p) \<and>
    (\<exists>bk\<in>set (bookings_of st).
       conflicts (field body ''propertyId'') (newDate h (field body ''checkIn''))
         (newDate h (field body ''checkOut'')) bk) \<longrightarrow>
      create_booking h now newId uid body st = (Inl DatesUnavailable, st))"
proof (intro conjI impI)
  assume "a < b \<and> b_checkIn bk < b_checkOut bk"
  then show "conflicts pid (Some a) (Some b) bk \<longleftrightarrow>
         strict_eq (b_propertyId bk) pid \<and> b_status bk = JStr ''confirmed'' \<and>
         overlap_spec a b (b_checkIn bk) (b_checkOut bk)"
    unfolding conflicts_Some overlap_spec_def by auto
next
  assume "strict_eq (b_propertyId bk) pid \<and> b_status bk = JStr ''confirmed'' \<and>
    overlap_spec a b (b_checkIn bk) (b_checkOut bk)"
  then show "conflicts pid (Some a) (Some b) bk"
    unfolding conflicts_Some overlap_spec_def by auto
next
  assume "truthy (field body ''propertyId'') \<and> truthy (field body ''checkIn'') \<and>
    truthy (field body ''checkOut'') \<and>
    (\<exists>p\<in>set (properties_of st). has_id (field body ''propertyId'') p) \<and>
    (\<exists>bk\<in>set (bookings_of st).
       conflicts (field body ''propertyId'') (newDate h (field body ''checkIn''))
         (newDate h (field body ''checkOut'')) bk)"
  then show "create_booking h now newId uid body st = (Inl DatesUnavailable, st)"
    by (intro create_booking_conflict) blast+
qed

lemma stay_fields:
  "b_propertyId (stay bid pid ci co s) = JStr pid"
  "b_status (stay bid pid ci co s) = JStr s"
  "b_checkIn (stay bid pid ci co s) = ci"
  "b_checkOut (stay bid pid ci co s) = co"
  by (simp_all add: stay_def)

lemma jan_less [simp]: "jan x < jan y \<longleftrightarrow> x < y"
  by (simp add: jan_def msPerDay_def)

theorem conflict_detection_witness:
  "jan 14 < jan 20 \<and> jan 10 < jan 15 \<and>
   conflicts (JStr ''p1'') (Some (jan 14)) (Some (jan 20))
     (stay ''b1'' ''p1'' (jan 10) (jan 15) ''confirmed'') \<and>
   \<not> conflicts (JStr ''p1'') (Some (jan 15)) (Some (jan 20))
     (stay ''b1'' ''p1'' (jan 10) (jan 15) ''confirmed'') \<and>
   create_booking example_host (jan 1) ''b2'' ''bob'' (booking_request ''p1'' (jan 14) (jan 20))
     example_store = (Inl DatesUnavailable, example_store)"
proof -
  let ?A = "stay ''b1'' ''p1'' (jan 10) (jan 15) ''confirmed''"
  have lt: "jan 14 < jan 20" "jan 15 < jan 20" "jan 10 < jan 15" by simp_all
  from conflict_detection[of "jan 14" "jan 20" ?A "JStr ''p1''"] lt
  have B: "conflicts (JStr ''p1'') (Some (jan 14)) (Some (jan 20)) ?A"
    by (simp add: stay_fields overlap_spec_def)
  from conflict_detection[of "jan 15" "jan 20" ?A "JStr ''p1''"] lt
  have C: "\<not> conflicts (JStr ''p1'') (Some (jan 15)) (Some (jan 20)) ?A"
    by (simp add: stay_fields overlap_spec_def)
  have d: "newDate example_host (JNum (of_int (jan 14))) = Some (jan 14)"
    "newDate example_host (JNum (of_int (jan 20))) = Some (jan 20)"
    by (simp_all add: example_newDate jan_def msPerDay_def)
  have pre: "truthy (field (booking_request ''p1'' (jan 14) (jan 20)) ''propertyId'') \<and>
    truthy (field (booking_request ''p1'' (jan 14) (jan 20)) ''checkIn'') \<and>
    truthy (field (booking_request ''p1'' (jan 14) (jan 20)) ''checkOut'') \<and>
    (\<exists>p\<in>set (properties_of example_store).
       has_id (field (booking_request ''p1'' (jan 14) (jan 20)) ''propertyId'') p) \<and>
    (\<exists>bk\<in>set (bookings_of example_store).
       conflicts (field (booking_request ''p1'' (jan 14) (jan 20)) ''propertyId'')
         (newDate example_host (field (booking_request ''p1'' (jan 14) (jan 20)) ''checkIn''))
         (newDate example_host (field (booking_request ''p1'' (jan 14) (jan 20)) ''checkOut'')) bk)"
    using B by (simp add: booking_request_fields d example_properties example_bookings
        has_id_def listing_fields) (simp add: jan_def msPerDay_def)
  from conflict_detection[of _ _ _ _ "booking_request ''p1'' (jan 14) (jan 20)" example_store
      example_host "jan 1" "''b2''" "''bob''", THEN conjunct2, THEN conjunct2, THEN mp, OF pre]
  have D: "create_booking example_host (jan 1) ''b2'' ''bob''
     (booking_request ''p1'' (jan 14) (jan 20)) example_store = (Inl DatesUnavailable, example_store)" .
  from lt B C D show ?thesis by blast
qed

text \<open>
  The overlap condition is not necessary for a conflict: a candidate that checks in and out
  on 10 January overlaps nothing, and is refused against the booking of 10 to 15 January.
\<close>

theorem conflict_detection_counterexample:
  "b_propertyId (stay ''b1'' ''p1'' (jan 10) (jan 15) ''confirmed'') = JStr ''p1'' \<and>
   b_status (stay ''b1'' ''p1'' (jan 10) (jan 15) ''confirmed'') = JStr ''confirmed'' \<and>
   \<not> (jan 10 < b_checkOut (stay ''b1'' ''p1'' (jan 10) (jan 15) ''confirmed'') \<and>
      b_checkIn (stay ''b1'' ''p1'' (jan 10) (jan 15) ''confirmed'') < jan 10) \<and>
   conflicts (JStr ''p1'') (Some (jan 10)) (Some (jan 10))
     (stay ''b1'' ''p1'' (jan 10) (jan 15) ''confirmed'') \<and>
   create_booking example_host (jan 1) ''b2'' ''bob'' (booking_request ''p1'' (jan 10) (jan 10))
     example_store = (Inl DatesUnavailable, example_store)"
  by (simp add: stay_fields conflicts_Some create_booking_def Let_def booking_request_fields
      example_newDate example_properties[unfolded properties_of_def]
      example_bookings[unfolded bookings_of_def] has_id_def listing_fields conflicts_def
      date_lt_def date_le_def date_gt_def date_ge_def)
    (simp add: jan_def msPerDay_def stay_def)

section \<open>What a request depends on\<close>

lemma contents_eq:
  "contents st = contents st' \<longleftrightarrow>
     readData (subscriptions_file st) = readData (subscriptions_file st') \<and>
     readData (properties_file st) = readData (properties_file st') \<and>
     readData (bookings_file st) = readData (bookings_file st')"
  by (simp add: contents_def subscriptions_of_def properties_of_def bookings_of_def)

lemma contents_write [simp]:
  "contents (st\<lparr>subscriptions_file := writeData xs\<rparr>) =
     (xs, properties_of st, bookings_of st)"
  "contents (st\<lparr>properties_file := writeData ys\<rparr>) =
     (subscriptions_of st, ys, bookings_of st)"
  "contents (st\<lparr>bookings_file := writeData zs\<rparr>) =
     (subscriptions_of st, properties_of st, zs)"
  by (simp_all add: contents_def subscriptions_of_def properties_of_def bookings_of_def
      writeData_def)

lemma subscribe_contents:
  assumes "contents st = contents st'"
  shows "fst (subscribe h now newId uid body st) = fst (subscribe h now newId uid body st') \<and>
         contents (snd (subscribe h now newId uid body st)) =
         contents (snd (subscribe h now newId uid body st'))"
  using assms[unfolded contents_def] assms
  by (simp add: subscribe_def Let_def contents_eq split: option.splits)

lemma checkSubscription_contents:
  assumes "contents st = contents st'"
  shows "fst (checkSubscription now uid st) = fst (checkSubscription now uid st') \<and>
         contents (snd (checkSubscription now uid st)) =
         contents (snd (checkSubscription now uid st'))"
  using assms[unfolded contents_def] assms
  by (simp add: checkSubscription_def Let_def contents_eq split: option.splits)

lemma gated_contents:
  assumes c: "contents st = contents st'"
    and f: "\<And>sub. fst (f sub st) = fst (f sub st') \<and>
                  contents (snd (f sub st)) = contents (snd (f sub st'))"
  shows "fst (gated now uid f st) = fst (gated now uid f st') \<and>
         contents (snd (gated now uid f st)) = contents (snd (gated now uid f st'))"
  using gated_cases[of now uid f st] gated_cases[of now uid f st']
    checkSubscription_contents[OF c, of now uid] f
  by (elim disjE exE conjE) auto

lemma create_property_contents:
  assumes "contents st = contents st'"
  shows "fst (create_property h now newId uid body sub st) =
         fst (create_property h now newId uid body sub st') \<and>
         contents (snd (create_property h now newId uid body sub st)) =
         contents (snd (create_property h now newId uid body sub st'))"
  using assms[unfolded contents_def] assms
  by (simp add: create_property_def Let_def contents_eq)

lemma update_property_contents:
  assumes "contents st = contents st'"
  shows "fst (update_property h now uid pid body st) =
         fst (update_property h now uid pid body st') \<and>
         contents (snd (update_property h now uid pid body st)) =
         contents (snd (update_property h now uid pid body st'))"
  using assms[unfolded contents_def] assms
  by (simp add: update_property_def Let_def contents_eq split: option.splits)

lemma delete_property_contents:
  assumes "contents st = contents st'"
  shows "fst (delete_property uid pid st) = fst (delete_property uid pid st') \<and>
         contents (snd (delete_property uid pid st)) =
         contents (snd (delete_property uid pid st'))"
  using assms[unfolded contents_def] assms
  by (simp add: delete_property_def Let_def contents_eq split: option.splits)

lemma create_booking_contents:
  assumes "contents st = contents st'"
  shows "fst (create_booking h now newId uid body st) =
         fst (create_booking h now newId uid body st') \<and>
         contents (snd (create_booking h now newId uid body st)) =
         contents (snd (create_booking h now newId uid body st'))"
  using assms[unfolded contents_def] assms
  by (simp add: create_booking_def Let_def contents_eq split: option.splits)

lemma update_booking_status_contents:
  assumes "contents st = contents st'"
  shows "fst (update_booking_status uid bid body st) =
         fst (update_booking_status uid bid body st') \<and>
         contents (snd (update_booking_status uid bid body st)) =
         contents (snd (update_booking_status uid bid body st'))"
  using assms[unfolded contents_def] assms
  by (simp add: update_booking_status_def Let_def contents_eq split: option.splits)

lemma read_only_store [simp]:
  "snd (my_subscription uid st) = st"
  "snd (get_properties st) = st"
  "snd (get_property pid st) = st"
  "snd (my_listings uid st) = st"
  "snd (my_bookings uid st) = st"
  "snd (my_property_bookings uid st) = st"
  by (simp_all add: my_subscription_def get_properties_def get_property_def my_listings_def
      my_bookings_def my_property_bookings_def Let_def split: option.splits)

lemma read_only_contents:
  assumes "contents st = contents st'"
  shows "fst (my_subscription uid st) = fst (my_subscription uid st')"
    "fst (get_properties st) = fst (get_properties st')"
    "fst (get_property pid st) = fst (get_property pid st')"
    "fst (my_listings uid st) = fst (my_listings uid st')"
    "fst (my_bookings uid st) = fst (my_bookings uid st')"
    "fst (my_property_bookings uid st) = fst (my_property_bookings uid st')"
  using assms[unfolded contents_eq]
  by (simp_all add: my_subscription_def get_properties_def get_property_def my_listings_def
      my_bookings_def my_property_bookings_def Let_def split: option.splits)

lemma step_contents:
  assumes c: "contents st = contents st'"
  shows "fst (step h r st) = fst (step h r st') \<and>
         contents (snd (step h r st)) = contents (snd (step h r st'))"
proof (cases r)
  case (Subscribe uid now newId body)
  then show ?thesis using subscribe_contents[OF c] by simp
next
  case (CreateProperty uid now newId body)
  then show ?thesis
    using gated_contents[OF c, of "create_property h now newId uid body"]
      create_property_contents[OF c] by simp
next
  case (UpdateProperty uid now pid body)
  then show ?thesis
    using gated_contents[OF c, of "\<lambda>sub. update_property h now uid pid body"]
      update_property_contents[OF c] by simp
next
  case (DeleteProperty uid now pid)
  then show ?thesis
    using gated_contents[OF c, of "\<lambda>sub. delete_property uid pid"]
      delete_property_contents[OF c] by simp
next
  case (MyListings uid now)
  then show ?thesis
    using gated_contents[OF c, of "\<lambda>sub. my_listings uid"] read_only_contents[OF c] c
    by (simp del: read_only_store) (simp add: read_only_store)
next
  case (CreateBooking uid now newId body)
  then show ?thesis using create_booking_contents[OF c] by simp
next
  case (MyPropertyBookings uid now)
  then show ?thesis
    using gated_contents[OF c, of "\<lambda>sub. my_property_bookings uid"] read_only_contents[OF c] c
    by (simp del: read_only_store) (simp add: read_only_store)
next
  case (UpdateBookingStatus uid now bid body)
  then show ?thesis
    using gated_contents[OF c, of "\<lambda>sub. update_booking_status uid bid body"]
      update_booking_status_contents[OF c] by simp
qed (use read_only_contents[OF c] c in simp_all)

section \<open>Subscription renewal\<close>

lemma findIndex_SomeI:
  "i < length xs \<Longrightarrow> P (xs ! i) \<Longrightarrow> \<forall>j<i. \<not> P (xs ! j) \<Longrightarrow> findIndex P xs = Some i"
proof (induction xs arbitrary: i)
  case Nil
  then show ?case by simp
next
  case (Cons x xs)
  show ?case
  proof (cases i)
    case 0
    with Cons.prems show ?thesis by simp
  next
    case (Suc k)
    with Cons.prems have "\<not> P x" by auto
    moreover from Suc Cons.prems have "findIndex P xs = Some k"
      by (intro Cons.IH) auto
    ultimately show ?thesis using Suc by simp
  qed
qed

lemma findIndex_update:
  assumes "findIndex P xs = Some i" "P y"
  shows "findIndex P (xs[i := y]) = Some i"
  using findIndex_SomeD[OF assms(1)] assms(2)
  by (intro findIndex_SomeI) auto

lemma findIndex_snoc:
  assumes "findIndex P xs = None" "P x"
  shows "findIndex P (xs @ [x]) = Some (length xs)"
  using assms by (intro findIndex_SomeI) (auto simp: findIndex_None_iff nth_append)

lemma find_plan:
  "plan \<in> set plans \<Longrightarrow>
     find (\<lambda>p. strict_eq (JStr (plan_id p)) (JStr (plan_id plan))) plans = Some plan"
  by (auto simp: plans_def)

lemma plan_duration_30: "plan \<in> set plans \<Longrightarrow> plan_duration plan = 30"
  by (auto simp: plans_def)

lemma subscribe_renew:
  assumes "plan \<in> set plans" "field body ''planId'' = JStr (plan_id plan)"
    and "findIndex (is_active_of uid) (subscriptions_of st) = Some i"
  shows "subscribe h now newId uid body st =
     (Inr (SubscriptionR ((subscriptions_of st ! i)
             \<lparr>sub_planId := JStr (plan_id plan), sub_price := plan_price plan,
              sub_expiresAt := setDate_plus h now 30, sub_updatedAt := now\<rparr>)),
      st\<lparr>subscriptions_file := writeData ((subscriptions_of st)
            [i := (subscriptions_of st ! i)
               \<lparr>sub_planId := JStr (plan_id plan), sub_price := plan_price plan,
                sub_expiresAt := setDate_plus h now 30, sub_updatedAt := now\<rparr>])\<rparr>)"
proof -
  have "truthy (JStr (plan_id plan))" using assms(1) by (auto simp: plans_def)
  then show ?thesis
    using assms find_plan[OF assms(1)] plan_duration_30[OF assms(1)]
    by (simp add: subscribe_def Let_def subscriptions_of_def)
qed

lemma subscribe_new:
  assumes "plan \<in> set plans" "field body ''planId'' = JStr (plan_id plan)"
    and "findIndex (is_active_of uid) (subscriptions_of st) = None"
  shows "subscribe h now newId uid body st =
     (Inr (SubscriptionR
        \<lparr>sub_id = newId, sub_userId = uid, sub_planId = JStr (plan_id plan),
         sub_price = plan_price plan, sub_status = ''active'',
         sub_createdAt = now, sub_expiresAt = setDate_plus h now 30, sub_updatedAt = now\<rparr>),
      st\<lparr>subscriptions_file := writeData (subscriptions_of st @
        [\<lparr>sub_id = newId, sub_userId = uid, sub_planId = JStr (plan_id plan),
         sub_price = plan_price plan, sub_status = ''active'',
         sub_createdAt = now, sub_expiresAt = setDate_plus h now 30, sub_updatedAt = now\<rparr>])\<rparr>)"
proof -
  have "truthy (JStr (plan_id plan))" using assms(1) by (auto simp: plans_def)
  then show ?thesis
    using assms find_plan[OF assms(1)] plan_duration_30[OF assms(1)]
    by (simp add: subscribe_def Let_def subscriptions_of_def)
qed

lemma subscriptions_of_write [simp]:
  "subscriptions_of (st\<lparr>subscriptions_file := writeData xs\<rparr>) = xs"
  by (simp add: subscriptions_of_def writeData_def)

text \<open>After a subscribe call the caller's first active record is the one returned.\<close>

lemma subscribe_active:
  assumes "plan \<in> set plans" "field body ''planId'' = JStr (plan_id plan)"
  shows "\<exists>s k. fst (subscribe h now newId uid body st) = Inr (SubscriptionR s) \<and>
           findIndex (is_active_of uid) (subscriptions_of (snd (subscribe h now newId uid body st)))
             = Some k \<and>
           subscriptions_of (snd (subscribe h now newId uid body st)) ! k = s \<and>
           is_active_of uid s \<and> sub_expiresAt s = setDate_plus h now 30 \<and>
           (case findIndex (is_active_of uid) (subscriptions_of st) of
              Some i \<Rightarrow> sub_id s = sub_id (subscriptions_of st ! i)
            | None \<Rightarrow> sub_id s = newId)"
proof (cases "findIndex (is_active_of uid) (subscriptions_of st)")
  case None
  show ?thesis
    unfolding subscribe_new[OF assms None]
    using findIndex_snoc[OF None, of _] None
    by (simp add: is_active_of_def)
next
  case (Some i)
  note d = findIndex_SomeD[OF Some]
  show ?thesis
    unfolding subscribe_renew[OF assms Some]
    using findIndex_update[OF Some, of "(subscriptions_of st ! i)
             \<lparr>sub_planId := JStr (plan_id plan), sub_price := plan_price plan,
              sub_expiresAt := setDate_plus h now 30, sub_updatedAt := now\<rparr>"] d Some
    by (simp add: is_active_of_def)
qed

lemma setDate_fixed:
  "\<forall>t. offset_of_utc h t = c \<and> offset_of_local h t = c \<Longrightarrow>
     setDate_plus h t n = t + n * msPerDay"
  by (simp add: setDate_plus_def Let_def)


lemma basic_plan: "\<lparr>plan_id = ''basic'', plan_price = 9.99, plan_duration = 30\<rparr> \<in> set plans"
  by (simp add: plans_def)

lemma example_utc: "\<exists>c. \<forall>t. offset_of_utc example_host t = c \<and> offset_of_local example_host t = c"
  by (simp add: example_host_def)


section \<open>One active subscription per user\<close>

lemma one_active_expire:
  assumes "one_active xs"
  shows "one_active (xs[i := (xs ! i)\<lparr>sub_status := ''expired''\<rparr>])"
  unfolding one_active_def
proof (intro allI impI)
  fix a b
  let ?ys = "xs[i := (xs ! i)\<lparr>sub_status := ''expired''\<rparr>]"
  assume a: "a < length ?ys" and b: "b < length ?ys"
    and c: "sub_status (?ys ! a) = ''active'' \<and> sub_status (?ys ! b) = ''active'' \<and>
            sub_userId (?ys ! a) = sub_userId (?ys ! b)"
  from a c have "a \<noteq> i" by (auto simp: nth_list_update)
  moreover from b c have "b \<noteq> i" by (auto simp: nth_list_update)
  ultimately show "a = b"
    using assms a b c by (simp add: one_active_def)
qed

lemma one_active_renew:
  assumes "one_active xs" "sub_userId s = sub_userId (xs ! i)" "sub_status s = sub_status (xs ! i)"
  shows "one_active (xs[i := s])"
proof -
  have "sub_status (xs[i := s] ! k) = sub_status (xs ! k) \<and>
        sub_userId (xs[i := s] ! k) = sub_userId (xs ! k)" if "k < length xs" for k
    using that assms(2,3) by (cases "k = i") simp_all
  with assms(1) show ?thesis
    by (simp add: one_active_def)
qed

lemma one_active_snoc:
  assumes "one_active xs" "\<forall>x\<in>set xs. \<not> is_active_of (sub_userId s) x"
  shows "one_active (xs @ [s])"
  unfolding one_active_def
proof (intro allI impI)
  fix a b
  assume a: "a < length (xs @ [s])" and b: "b < length (xs @ [s])"
    and c: "sub_status ((xs @ [s]) ! a) = ''active'' \<and> sub_status ((xs @ [s]) ! b) = ''active'' \<and>
            sub_userId ((xs @ [s]) ! a) = sub_userId ((xs @ [s]) ! b)"
  have old: False if "k < length xs" "sub_status (xs ! k) = ''active''"
    "sub_userId (xs ! k) = sub_userId s" for k
    using that assms(2) by (auto simp: is_active_of_def dest: nth_mem)
  show "a = b"
  proof (cases "a < length xs")
    case True
    show ?thesis
    proof (cases "b < length xs")
      case True
      with \<open>a < length xs\<close> assms(1) c show ?thesis
        by (simp add: one_active_def nth_append)
    next
      case False
      with b have "b = length xs" by simp
      with True c old[of a] show ?thesis by (simp add: nth_append)
    qed
  next
    case False
    with a have al: "a = length xs" by simp
    show ?thesis
    proof (cases "b < length xs")
      case True
      with al c old[of b] show ?thesis by (simp add: nth_append)
    next
      case False
      with b al show ?thesis by simp
    qed
  qed
qed

lemma checkSubscription_subs:
  "subscriptions_of (snd (checkSubscription now uid st)) = subscriptions_of st \<or>
   (\<exists>i. findIndex (is_active_of uid) (subscriptions_of st) = Some i \<and>
        sub_expiresAt (subscriptions_of st ! i) < now \<and>
        checkSubscription now uid st =
          (Inl SubscriptionExpired,
           st\<lparr>subscriptions_file := writeData ((subscriptions_of st)
             [i := (subscriptions_of st ! i)\<lparr>sub_status := ''expired''\<rparr>])\<rparr>))"
  by (auto simp: checkSubscription_def Let_def subscriptions_of_def writeData_def
      split: option.splits)

lemma subscribe_subs:
  "snd (subscribe h now newId uid body st) = st \<or>
   (\<exists>i s. findIndex (is_active_of uid) (subscriptions_of st) = Some i \<and>
          sub_userId s = sub_userId (subscriptions_of st ! i) \<and>
          sub_status s = sub_status (subscriptions_of st ! i) \<and>
          sub_id s = sub_id (subscriptions_of st ! i) \<and>
          subscriptions_of (snd (subscribe h now newId uid body st)) =
            (subscriptions_of st)[i := s]) \<or>
   (\<exists>s. findIndex (is_active_of uid) (subscriptions_of st) = None \<and>
        sub_userId s = uid \<and> sub_status s = ''active'' \<and> sub_id s = newId \<and>
        subscriptions_of (snd (subscribe h now newId uid body st)) = subscriptions_of st @ [s])"
proof (cases "truthy (field body ''planId'')")
  case False
  then show ?thesis by (simp add: subscribe_def Let_def)
next
  case True
  show ?thesis
  proof (cases "find (\<lambda>p. strict_eq (JStr (plan_id p)) (field body ''planId'')) plans")
    case None
    with True show ?thesis by (simp add: subscribe_def Let_def)
  next
    case (Some plan)
    show ?thesis
    proof (cases "findIndex (is_active_of uid) (subscriptions_of st)")
      case None
      let ?s = "\<lparr>sub_id = newId, sub_userId = uid, sub_planId = field body ''planId'',
                 sub_price = plan_price plan, sub_status = ''active'',
                 sub_createdAt = now, sub_expiresAt = setDate_plus h now (plan_duration plan),
                 sub_updatedAt = now\<rparr>"
      from True Some None
      have "subscriptions_of (snd (subscribe h now newId uid body st)) = subscriptions_of st @ [?s]"
        by (simp add: subscribe_def Let_def subscriptions_of_def writeData_def)
      with None show ?thesis by (intro disjI2 exI[of _ ?s]) simp
    next
      case i: (Some i)
      let ?s = "(subscriptions_of st ! i)
                 \<lparr>sub_planId := field body ''planId'', sub_price := plan_price plan,
                  sub_expiresAt := setDate_plus h now (plan_duration plan),
                  sub_updatedAt := now\<rparr>"
      from True Some i
      have "subscriptions_of (snd (subscribe h now newId uid body st)) =
            (subscriptions_of st)[i := ?s]"
        by (simp add: subscribe_def Let_def subscriptions_of_def writeData_def)
      with i show ?thesis
        by (intro disjI2 disjI1 exI[of _ i] exI[of _ ?s]) simp
    qed
  qed
qed

lemma handlers_keep_subscriptions:
  "subscriptions_file (snd (create_property h now newId uid body sub st)) = subscriptions_file st"
  "subscriptions_file (snd (update_property h now uid pid body st)) = subscriptions_file st"
  "subscriptions_file (snd (delete_property uid pid st)) = subscriptions_file st"
  "subscriptions_file (snd (create_booking h now newId uid body st)) = subscriptions_file st"
  "subscriptions_file (snd (update_booking_status uid bid body st)) = subscriptions_file st"
  by (simp_all add: create_property_def update_property_def delete_property_def
      create_booking_def update_booking_status_def Let_def split: option.splits)

lemma gated_subscriptions:
  assumes "\<And>sub. subscriptions_file (snd (f sub st)) = subscriptions_file st"
  shows "subscriptions_of (snd (gated now uid f st)) =
         subscriptions_of (snd (checkSubscription now uid st))"
  using gated_cases[of now uid f st] assms
  by (auto simp: subscriptions_of_def)

lemma step_subscriptions:
  "(\<exists>uid now newId body. r = Subscribe uid now newId body) \<or>
   subscriptions_of (snd (step h r st)) = subscriptions_of st \<or>
   (\<exists>uid now. subscriptions_of (snd (step h r st)) =
               subscriptions_of (snd (checkSubscription now uid st)))"
proof (cases r)
  case (Subscribe uid now newId body)
  then show ?thesis by blast
next
  case (CreateProperty uid now newId body)
  then show ?thesis
    using gated_subscriptions[of "create_property h now newId uid body" st now uid]
    by (simp add: handlers_keep_subscriptions) blast
next
  case (UpdateProperty uid now pid body)
  then show ?thesis
    using gated_subscriptions[of "\<lambda>sub. update_property h now uid pid body" st now uid]
    by (simp add: handlers_keep_subscriptions) blast
next
  case (DeleteProperty uid now pid)
  then show ?thesis
    using gated_subscriptions[of "\<lambda>sub. delete_property uid pid" st now uid]
    by (simp add: handlers_keep_subscriptions) blast
next
  case (MyListings uid now)
  then show ?thesis
    using gated_subscriptions[of "\<lambda>sub. my_listings uid" st now uid]
    by simp blast
next
  case (CreateBooking uid now newId body)
  then show ?thesis
    by (simp add: handlers_keep_subscriptions subscriptions_of_def)
next
  case (MyPropertyBookings uid now)
  then show ?thesis
    using gated_subscriptions[of "\<lambda>sub. my_property_bookings uid" st now uid]
    by simp blast
next
  case (UpdateBookingStatus uid now bid body)
  then show ?thesis
    using gated_subscriptions[of "\<lambda>sub. update_booking_status uid bid body" st now uid]
    by (simp add: handlers_keep_subscriptions) blast
qed simp_all

lemma checkSubscription_one_active:
  "one_active (subscriptions_of st) \<Longrightarrow>
   one_active (subscriptions_of (snd (checkSubscription now uid st)))"
  using checkSubscription_subs[of now uid st]
  by (auto simp: one_active_expire)

lemma subscribe_one_active:
  assumes "one_active (subscriptions_of st)"
  shows "one_active (subscriptions_of (snd (subscribe h now newId uid body st)))"
  using subscribe_subs[of h now newId uid body st]
proof (elim disjE exE conjE)
  assume "snd (subscribe h now newId uid body st) = st"
  with assms show ?thesis by simp
next
  fix i s
  assume "sub_userId s = sub_userId (subscriptions_of st ! i)"
    "sub_status s = sub_status (subscriptions_of st ! i)"
    "subscriptions_of (snd (subscribe h now newId uid body st)) = (subscriptions_of st)[i := s]"
  with assms show ?thesis by (simp add: one_active_renew)
next
  fix s
  assume "findIndex (is_active_of uid) (subscriptions_of st) = None" "sub_userId s = uid"
    "subscriptions_of (snd (subscribe h now newId uid body st)) = subscriptions_of st @ [s]"
  with assms show ?thesis
    by (simp add: one_active_snoc findIndex_None_iff)
qed

lemma step_one_active:
  assumes "one_active (subscriptions_of st)"
  shows "one_active (subscriptions_of (snd (step h r st)))"
  using step_subscriptions[of r h st]
proof (elim disjE exE)
  fix uid now newId body
  assume "r = Subscribe uid now newId body"
  with assms show ?thesis by (simp add: subscribe_one_active)
next
  assume "subscriptions_of (snd (step h r st)) = subscriptions_of st"
  with assms show ?thesis by simp
next
  fix uid now
  assume "subscriptions_of (snd (step h r st)) =
          subscriptions_of (snd (checkSubscription now uid st))"
  with assms show ?thesis by (simp add: checkSubscription_one_active)
qed

lemma run_one_active:
  "one_active (subscriptions_of st) \<Longrightarrow> one_active (subscriptions_of (run h rs st))"
  by (induction rs arbitrary: st) (simp_all add: step_one_active del: step.simps)

lemma one_active_first:
  assumes "one_active xs" "i < length xs" "is_active_of uid (xs ! i)"
  shows "findIndex (is_active_of uid) xs = Some i"
proof (rule findIndex_SomeI)
  show "\<forall>j<i. \<not> is_active_of uid (xs ! j)"
  proof (intro allI impI notI)
    fix j assume "j < i" "is_active_of uid (xs ! j)"
    with assms have "j = i"
      unfolding one_active_def is_active_of_def by (metis less_trans)
    with \<open>j < i\<close> show False by simp
  qed
qed (use assms in simp_all)

text \<open>
  C2.  That no user has two active subscription records is preserved by every request, and
  holds after any sequence of requests from the empty store.  Subscribing while the caller
  has an active record overwrites \<open>planId\<close>, \<open>price\<close>, \<open>expiresAt\<close> and \<open>updatedAt\<close> of that
  record in place (same position, same id, same number of records); a record is appended,
  with status \<open>active\<close>, only when the caller has no active record.
\<close>

theorem one_active_subscription_per_user:
  "(one_active (subscriptions_of st) \<longrightarrow> one_active (subscriptions_of (snd (step h r st)))) \<and>
   one_active (subscriptions_of (run h rs empty_store)) \<and>
   (plan \<in> set plans \<and> field body ''planId'' = JStr (plan_id plan) \<longrightarrow>
      (\<forall>i. one_active (subscriptions_of st) \<and> i < length (subscriptions_of st) \<and>
           is_active_of uid (subscriptions_of st ! i) \<longrightarrow>
           (\<exists>s. subscribe h now newId uid body st =
                  (Inr (SubscriptionR s),
                   st\<lparr>subscriptions_file := writeData ((subscriptions_of st)[i := s])\<rparr>) \<and>
                s = (subscriptions_of st ! i)
                      \<lparr>sub_planId := JStr (plan_id plan), sub_price := plan_price plan,
                       sub_expiresAt := setDate_plus h now 30, sub_updatedAt := now\<rparr> \<and>
                sub_id s = sub_id (subscriptions_of st ! i) \<and>
                length ((subscriptions_of st)[i := s]) = length (subscriptions_of st))) \<and>
      ((\<forall>s\<in>set (subscriptions_of st). \<not> is_active_of uid s) \<longrightarrow>
           (\<exists>s. subscribe h now newId uid body st =
                  (Inr (SubscriptionR s),
                   st\<lparr>subscriptions_file := writeData (subscriptions_of st @ [s])\<rparr>) \<and>
                sub_id s = newId \<and> sub_userId s = uid \<and> sub_status s = ''active''))) \<and>
   (length (subscriptions_of st) < length (subscriptions_of (snd (subscribe h now newId uid body st)))
      \<longrightarrow> (\<forall>s\<in>set (subscriptions_of st). \<not> is_active_of uid s))"
proof (intro conjI impI allI)
  show "one_active (subscriptions_of (snd (step h r st)))" if "one_active (subscriptions_of st)"
    using that by (rule step_one_active)
  show "one_active (subscriptions_of (run h rs empty_store))"
    by (rule run_one_active) (simp add: one_active_def subscriptions_of_def empty_store_def)
next
  fix i
  assume p: "plan \<in> set plans \<and> field body ''planId'' = JStr (plan_id plan)"
    and a: "one_active (subscriptions_of st) \<and> i < length (subscriptions_of st) \<and>
            is_active_of uid (subscriptions_of st ! i)"
  from a have "findIndex (is_active_of uid) (subscriptions_of st) = Some i"
    by (intro one_active_first) simp_all
  from subscribe_renew[OF _ _ this, of plan body h now newId] p
  show "\<exists>s. subscribe h now newId uid body st =
                  (Inr (SubscriptionR s),
                   st\<lparr>subscriptions_file := writeData ((subscriptions_of st)[i := s])\<rparr>) \<and>
                s = (subscriptions_of st ! i)
                      \<lparr>sub_planId := JStr (plan_id plan), sub_price := plan_price plan,
                       sub_expiresAt := setDate_plus h now 30, sub_updatedAt := now\<rparr> \<and>
                sub_id s = sub_id (subscriptions_of st ! i) \<and>
                length ((subscriptions_of st)[i := s]) = length (subscriptions_of st)"
    by simp
next
  assume p: "plan \<in> set plans \<and> field body ''planId'' = JStr (plan_id plan)"
    and n: "\<forall>s\<in>set (subscriptions_of st). \<not> is_active_of uid s"
  from n have "findIndex (is_active_of uid) (subscriptions_of st) = None"
    by (simp add: findIndex_None_iff)
  from subscribe_new[OF _ _ this, of plan body h now newId] p
  show "\<exists>s. subscribe h now newId uid body st =
                  (Inr (SubscriptionR s),
                   st\<lparr>subscriptions_file := writeData (subscriptions_of st @ [s])\<rparr>) \<and>
                sub_id s = newId \<and> sub_userId s = uid \<and> sub_status s = ''active''"
    by simp
next
  assume "length (subscriptions_of st) <
          length (subscriptions_of (snd (subscribe h now newId uid body st)))"
  with subscribe_subs[of h now newId uid body st]
  have "findIndex (is_active_of uid) (subscriptions_of st) = None"
    by (elim disjE exE conjE) simp_all
  then show "\<forall>s\<in>set (subscriptions_of st). \<not> is_active_of uid s"
    by (simp add: findIndex_None_iff)
qed

lemma example_subscriptions:
  "subscriptions_of example_store = [alice_sub (JStr ''basic'')]"
  by (simp add: subscriptions_of_def example_store_def)

lemma example_one_active: "one_active (subscriptions_of example_store)"
  by (simp add: example_subscriptions one_active_def)

lemma alice_active: "is_active_of ''alice'' (alice_sub planId)"
  by (simp add: is_active_of_def alice_sub_def)

lemma premium_plan:
  "\<lparr>plan_id = ''premium'', plan_price = 19.99, plan_duration = 30\<rparr> \<in> set plans"
  by (simp add: plans_def)

theorem one_active_subscription_per_user_witness:
  "\<lparr>plan_id = ''premium'', plan_price = 19.99, plan_duration = 30\<rparr> \<in> set plans \<and>
   one_active (subscriptions_of example_store) \<and>
   is_active_of ''alice'' (subscriptions_of example_store ! 0) \<and>
   subscriptions_of
     (snd (subscribe example_host (jan 20) ''s2'' ''alice'' [''planId'' \<mapsto> JStr ''premium'']
        example_store)) =
     [\<lparr>sub_id = ''s1'', sub_userId = ''alice'', sub_planId = JStr ''premium'', sub_price = 19.99,
       sub_status = ''active'', sub_createdAt = jan 1, sub_expiresAt = jan 50,
       sub_updatedAt = jan 20\<rparr>] \<and>
   \<not> (\<exists>s\<in>set (subscriptions_of example_store). is_active_of ''bob'' s) \<and>
   length (subscriptions_of
     (snd (subscribe example_host (jan 20) ''s2'' ''bob'' [''planId'' \<mapsto> JStr ''premium'']
        example_store))) = 2 \<and>
   one_active (subscriptions_of
     (snd (step example_host (Subscribe ''bob'' (jan 20) ''s2'' [''planId'' \<mapsto> JStr ''premium''])
        example_store)))"
proof -
  let ?plan = "\<lparr>plan_id = ''premium'', plan_price = 19.99, plan_duration = 30\<rparr>"
  let ?body = "[''planId'' \<mapsto> JStr ''premium'']"
  have p: "?plan \<in> set plans \<and> field ?body ''planId'' = JStr (plan_id ?plan)"
    using premium_plan by (simp add: field_def)
  have a: "one_active (subscriptions_of example_store) \<and>
           0 < length (subscriptions_of example_store) \<and>
           is_active_of ''alice'' (subscriptions_of example_store ! 0)"
    using example_one_active by (simp add: example_subscriptions alice_active)
  have n: "\<forall>s\<in>set (subscriptions_of example_store). \<not> is_active_of ''bob'' s"
    by (simp add: example_subscriptions is_active_of_def alice_sub_def)
  have e: "setDate_plus example_host (jan 20) 30 = jan 50"
    by (simp add: setDate_plus_def example_host_def jan_def msPerDay_def)
  note c2 = one_active_subscription_per_user[of example_store example_host _ _ ?plan ?body]
  from c2[of "Subscribe ''bob'' (jan 20) ''s2'' ?body" "[]" "''alice''" "jan 20" "''s2''",
      THEN conjunct2, THEN conjunct2, THEN conjunct1, THEN mp, OF p, THEN conjunct1,
      THEN spec, THEN mp, OF a]
  have 1: "subscriptions_of
     (snd (subscribe example_host (jan 20) ''s2'' ''alice'' ?body example_store)) =
     [\<lparr>sub_id = ''s1'', sub_userId = ''alice'', sub_planId = JStr ''premium'', sub_price = 19.99,
       sub_status = ''active'', sub_createdAt = jan 1, sub_expiresAt = jan 50,
       sub_updatedAt = jan 20\<rparr>]"
    by (auto simp: example_subscriptions alice_sub_def e)
  from c2[of "Subscribe ''bob'' (jan 20) ''s2'' ?body" "[]" "''bob''" "jan 20" "''s2''",
      THEN conjunct2, THEN conjunct2, THEN conjunct1, THEN mp, OF p, THEN conjunct2,
      THEN mp, OF n]
  have 2: "length (subscriptions_of
     (snd (subscribe example_host (jan 20) ''s2'' ''bob'' ?body example_store))) = 2"
    by (auto simp: example_subscriptions)
  from c2[of "Subscribe ''bob'' (jan 20) ''s2'' ?body" "[]" "''bob''" "jan 20" "''s2''",
      THEN conjunct1, THEN mp, OF example_one_active]
  have 3: "one_active (subscriptions_of
     (snd (step example_host (Subscribe ''bob'' (jan 20) ''s2'' ?body) example_store)))" .
  from premium_plan a n 1 2 3 show ?thesis by blast
qed

section \<open>The gate on an expired subscription\<close>

lemma no_active_step:
  assumes "\<not> is_subscribe_by uid r"
    and "findIndex (is_active_of uid) (subscriptions_of st) = None"
  shows "findIndex (is_active_of uid) (subscriptions_of (snd (step h r st))) = None"
proof -
  from assms(2) have n: "\<forall>x\<in>set (subscriptions_of st). \<not> is_active_of uid x"
    by (simp add: findIndex_None_iff)
  have upd: "\<forall>x\<in>set ((subscriptions_of st)[i := s]). \<not> is_active_of uid x"
    if "\<not> is_active_of uid s" for i s
    using n that set_update_subset_insert[of "subscriptions_of st" i s] by auto
  have "\<forall>x\<in>set (subscriptions_of (snd (step h r st))). \<not> is_active_of uid x"
    using step_subscriptions[of r h st]
  proof (elim disjE exE)
    fix u now newId body
    assume r: "r = Subscribe u now newId body"
    with assms(1) have u: "u \<noteq> uid" by simp
    from subscribe_subs[of h now newId u body st] show ?thesis
    proof (elim disjE exE conjE)
      assume "snd (subscribe h now newId u body st) = st"
      with r n show ?thesis by simp
    next
      fix i s
      assume i: "findIndex (is_active_of u) (subscriptions_of st) = Some i"
        and s: "sub_userId s = sub_userId (subscriptions_of st ! i)"
        and "sub_status s = sub_status (subscriptions_of st ! i)"
        and e: "subscriptions_of (snd (subscribe h now newId u body st)) =
                (subscriptions_of st)[i := s]"
      from findIndex_SomeD[OF i] s u have "\<not> is_active_of uid s"
        by (simp add: is_active_of_def)
      from upd[OF this, of i] e r show ?thesis by simp
    next
      fix s
      assume "sub_userId s = u"
        and e: "subscriptions_of (snd (subscribe h now newId u body st)) =
                subscriptions_of st @ [s]"
      with u n r show ?thesis by (simp add: is_active_of_def)
    qed
  next
    assume "subscriptions_of (snd (step h r st)) = subscriptions_of st"
    with n show ?thesis by simp
  next
    fix u now
    assume e: "subscriptions_of (snd (step h r st)) =
               subscriptions_of (snd (checkSubscription now u st))"
    from checkSubscription_subs[of now u st] show ?thesis
    proof (elim disjE exE conjE)
      assume "subscriptions_of (snd (checkSubscription now u st)) = subscriptions_of st"
      with e n show ?thesis by simp
    next
      fix i
      assume "checkSubscription now u st =
          (Inl SubscriptionExpired,
           st\<lparr>subscriptions_file := writeData ((subscriptions_of st)
             [i := (subscriptions_of st ! i)\<lparr>sub_status := ''expired''\<rparr>])\<rparr>)"
      with e upd[of "(subscriptions_of st ! i)\<lparr>sub_status := ''expired''\<rparr>" i]
      show ?thesis by (simp add: is_active_of_def)
    qed
  qed
  then show ?thesis by (simp add: findIndex_None_iff)
qed

lemma no_active_run:
  "\<forall>r\<in>set rs. \<not> is_subscribe_by uid r \<Longrightarrow>
   findIndex (is_active_of uid) (subscriptions_of st) = None \<Longrightarrow>
   findIndex (is_active_of uid) (subscriptions_of (run h rs st)) = None"
  by (induction rs arbitrary: st) (simp_all add: no_active_step del: step.simps)

lemma gate_required:
  "findIndex (is_active_of uid) (subscriptions_of st) = None \<Longrightarrow>
   checkSubscription now uid st = (Inl SubscriptionRequired, st)"
  by (simp add: checkSubscription_def subscriptions_of_def)

lemma gate_expired:
  assumes "findIndex (is_active_of uid) (subscriptions_of st) = Some i"
    and "sub_expiresAt (subscriptions_of st ! i) < now"
  shows "checkSubscription now uid st =
     (Inl SubscriptionExpired,
      st\<lparr>subscriptions_file := writeData ((subscriptions_of st)
             [i := (subscriptions_of st ! i)\<lparr>sub_status := ''expired''\<rparr>])\<rparr>)"
  using assms by (simp add: checkSubscription_def subscriptions_of_def Let_def)

lemma one_active_expired_none:
  assumes "one_active xs" "i < length xs" "is_active_of uid (xs ! i)"
  shows "findIndex (is_active_of uid) (xs[i := (xs ! i)\<lparr>sub_status := ''expired''\<rparr>]) = None"
  unfolding findIndex_None_iff
proof (intro ballI notI)
  fix x
  assume "x \<in> set (xs[i := (xs ! i)\<lparr>sub_status := ''expired''\<rparr>])"
    and x: "is_active_of uid x"
  then obtain j where j: "j < length xs" "x = xs[i := (xs ! i)\<lparr>sub_status := ''expired''\<rparr>] ! j"
    by (auto simp: in_set_conv_nth)
  with x have "j \<noteq> i" by (auto simp: is_active_of_def)
  with j x have "is_active_of uid (xs ! j)" by simp
  with assms j(1) have "j = i"
    unfolding one_active_def is_active_of_def by metis
  with \<open>j \<noteq> i\<close> show False by simp
qed


lemma alice_expiry: "sub_expiresAt (alice_sub planId) = jan 31"
  by (simp add: alice_sub_def)



section \<open>Read failures and refused writes\<close>

lemma findIndex_Nil_None: "xs = [] \<Longrightarrow> findIndex P xs = None"
  by simp

lemma checkSubscription_empty:
  "subscriptions_of st = [] \<Longrightarrow> checkSubscription now uid st = (Inl SubscriptionRequired, st)"
  by (simp add: checkSubscription_def subscriptions_of_def)

lemma gated_file_cases:
  "snd (gated now uid f st) = snd (checkSubscription now uid st) \<or>
   (\<exists>sub. snd (gated now uid f st) = snd (f sub st))"
  using gated_cases[of now uid f st] by auto

lemma subscribe_file:
  "subscriptions_of st = [] \<Longrightarrow>
   subscriptions_file (snd (subscribe h now newId uid body st)) = subscriptions_file st \<or>
   subscriptions_of (snd (subscribe h now newId uid body st)) \<noteq> []"
  by (simp add: subscribe_def Let_def subscriptions_of_def writeData_def split: option.splits)

lemma checkSubscription_file:
  "subscriptions_of st = [] \<Longrightarrow>
   subscriptions_file (snd (checkSubscription now uid st)) = subscriptions_file st"
  by (simp add: checkSubscription_empty)

lemma gated_subscriptions_file:
  assumes "subscriptions_of st = []"
    and "\<And>sub. subscriptions_file (snd (f sub st)) = subscriptions_file st"
  shows "subscriptions_file (snd (gated now uid f st)) = subscriptions_file st"
  using gated_file_cases[of now uid f st] checkSubscription_file[OF assms(1), of now uid] assms(2)
  by auto

lemma step_subscriptions_file:
  assumes "subscriptions_of st = []"
  shows "subscriptions_file (snd (step h r st)) = subscriptions_file st \<or>
         subscriptions_of (snd (step h r st)) \<noteq> []"
proof (cases r)
  case (Subscribe uid now newId body)
  then show ?thesis using subscribe_file[OF assms] by simp
qed (simp_all add: gated_subscriptions_file[OF assms] handlers_keep_subscriptions)

lemma create_property_file:
  "properties_file (snd (create_property h now newId uid body sub st)) = properties_file st \<or>
   properties_of (snd (create_property h now newId uid body sub st)) \<noteq> []"
  by (simp add: create_property_def Let_def properties_of_def writeData_def)

lemma update_property_file:
  "properties_of st = [] \<Longrightarrow>
   properties_file (snd (update_property h now uid pid body st)) = properties_file st"
  by (simp add: update_property_def Let_def properties_of_def)

lemma delete_property_file:
  "properties_of st = [] \<Longrightarrow>
   properties_file (snd (delete_property uid pid st)) = properties_file st"
  by (simp add: delete_property_def Let_def properties_of_def)

lemma handlers_keep_properties:
  "properties_file (snd (subscribe h now newId uid body st)) = properties_file st"
  "properties_file (snd (create_booking h now newId uid body st)) = properties_file st"
  "properties_file (snd (update_booking_status uid bid body st)) = properties_file st"
  by (simp_all add: subscribe_def create_booking_def update_booking_status_def Let_def
      split: option.splits)

lemma gated_properties_file:
  assumes "\<And>sub. properties_file (snd (f sub st)) = properties_file st \<or>
                  properties_of (snd (f sub st)) \<noteq> []"
  shows "properties_file (snd (gated now uid f st)) = properties_file st \<or>
         properties_of (snd (gated now uid f st)) \<noteq> []"
  using gated_file_cases[of now uid f st]
proof (elim disjE exE)
  assume "snd (gated now uid f st) = snd (checkSubscription now uid st)"
  with checkSubscription_other_files[of now uid st] show ?thesis by simp
next
  fix sub
  assume "snd (gated now uid f st) = snd (f sub st)"
  with assms[of sub] show ?thesis by simp
qed

lemma step_properties_file:
  assumes "properties_of st = []"
  shows "properties_file (snd (step h r st)) = properties_file st \<or>
         properties_of (snd (step h r st)) \<noteq> []"
proof (cases r)
  case (CreateProperty uid now newId body)
  then show ?thesis
    using gated_properties_file[of "create_property h now newId uid body" st now uid]
      create_property_file[of h now newId uid body _ st]
    by simp
next
  case (UpdateProperty uid now pid body)
  then show ?thesis
    using gated_properties_file[of "\<lambda>sub. update_property h now uid pid body" st now uid]
      update_property_file[OF assms, of h now uid pid body]
    by simp
next
  case (DeleteProperty uid now pid)
  then show ?thesis
    using gated_properties_file[of "\<lambda>sub. delete_property uid pid" st now uid]
      delete_property_file[OF assms, of uid pid]
    by simp
next
  case (MyListings uid now)
  then show ?thesis
    using gated_properties_file[of "\<lambda>sub. my_listings uid" st now uid] by simp
next
  case (MyPropertyBookings uid now)
  then show ?thesis
    using gated_properties_file[of "\<lambda>sub. my_property_bookings uid" st now uid] by simp
next
  case (UpdateBookingStatus uid now bid body)
  then show ?thesis
    using gated_properties_file[of "\<lambda>sub. update_booking_status uid bid body" st now uid]
    by (simp add: handlers_keep_properties)
qed (simp_all add: handlers_keep_properties)

lemma create_booking_file:
  "bookings_file (snd (create_booking h now newId uid body st)) = bookings_file st \<or>
   bookings_of (snd (create_booking h now newId uid body st)) \<noteq> []"
  using create_booking_cases[of h now newId uid body st] by auto

lemma update_booking_status_file:
  "bookings_of st = [] \<Longrightarrow>
   bookings_file (snd (update_booking_status uid bid body st)) = bookings_file st"
  by (simp add: update_booking_status_def Let_def bookings_of_def)

lemma step_bookings_file:
  assumes "bookings_of st = []"
  shows "bookings_file (snd (step h r st)) = bookings_file st \<or>
         bookings_of (snd (step h r st)) \<noteq> []"
proof (cases r)
  case (CreateBooking uid now newId body)
  then show ?thesis using create_booking_file[of h now newId uid body st] by simp
next
  case (UpdateBookingStatus uid now bid body)
  then show ?thesis
    using gated_cases[of now uid "\<lambda>sub. update_booking_status uid bid body" st]
      checkSubscription_other_files[of now uid st]
      update_booking_status_file[OF assms, of uid bid body]
    by auto
qed (simp_all add: subscribe_other_files gated_bookings create_property_bookings
      update_property_bookings delete_property_bookings)

text \<open>A request leaves an unreadable file unreadable exactly when it stores nothing in it.\<close>

lemma step_unreadable:
  assumes "unreadable c st"
  shows "unreadable c (snd (step h r st)) \<longleftrightarrow> reads_empty c (snd (step h r st))"
proof (cases c)
  case Subscriptions
  with assms have "subscriptions_of st = []" by (simp add: subscriptions_of_def)
  from step_subscriptions_file[OF this, of h r] assms Subscriptions show ?thesis
    by (auto simp: subscriptions_of_def)
next
  case Properties
  with assms have "properties_of st = []" by (simp add: properties_of_def)
  from step_properties_file[OF this, of h r] assms Properties show ?thesis
    by (auto simp: properties_of_def)
next
  case Bookings
  with assms have "bookings_of st = []" by (simp add: bookings_of_def)
  from step_bookings_file[OF this, of h r] assms Bookings show ?thesis
    by (auto simp: bookings_of_def)
qed

lemma reads_empty_contents:
  "contents st = contents st' \<Longrightarrow> reads_empty c st = reads_empty c st'"
  by (cases c) (simp_all add: contents_def)

lemma unreadable_agree:
  assumes "contents st = contents st'" "unreadable c st" "unreadable c st'"
  shows "unreadable c (snd (step h r st)) \<longleftrightarrow> unreadable c (snd (step h r st'))"
  using step_unreadable[OF assms(2), of h r] step_unreadable[OF assms(3), of h r]
    reads_empty_contents[of "snd (step h r st)" "snd (step h r st')" c]
    step_contents[OF assms(1), of h r]
  by simp

lemma step_io_agree:
  assumes c: "contents st = contents st'"
    and r: "write_refused st (snd (step h r st)) \<longleftrightarrow> write_refused st' (snd (step h r st'))"
  shows "fst (step_io w h r st) = fst (step_io w h r st') \<and>
         contents (snd (step_io w h r st)) = contents (snd (step_io w h r st'))"
  using step_contents[OF c, of h r] c r
  by (simp add: step_io_def split_beta)

lemma with_failure_contents: "contents (with_failure c k st) = contents (with_empty c st)"
  by (cases c; cases k)
    (simp_all add: contents_def subscriptions_of_def properties_of_def bookings_of_def)

lemma with_unreadable_others:
  "c' \<noteq> c \<Longrightarrow> unreadable c' (with_failure c k st) = unreadable c' st"
  "c' \<noteq> c \<Longrightarrow> unreadable c' (with_empty c st) = unreadable c' st"
  "\<not> unreadable c (with_empty c st)"
  "unreadable c (with_failure c k st) \<longleftrightarrow> k = FileUnreadable"
  by (cases c; cases c'; cases k; simp)+

text \<open>
  When the request stores nothing in the collection \<open>c\<close>, or \<open>c\<close> is not unreadable, the
  same writes are refused for the failing file as for the empty one.
\<close>

lemma refused_agree:
  assumes "k \<noteq> FileUnreadable \<or> unreadable c (snd (step h r (with_failure c k st)))"
  shows "write_refused (with_failure c k st) (snd (step h r (with_failure c k st))) \<longleftrightarrow>
         write_refused (with_empty c st) (snd (step h r (with_empty c st)))"
proof -
  let ?f = "with_failure c k st" and ?e = "with_empty c st"
  have one: "(unreadable c' ?f \<and> \<not> unreadable c' (snd (step h r ?f))) \<longleftrightarrow>
             (unreadable c' ?e \<and> \<not> unreadable c' (snd (step h r ?e)))" for c'
  proof (cases "c' = c")
    case True
    with assms show ?thesis by (auto simp: with_unreadable_others)
  next
    case False
    show ?thesis
    proof (cases "unreadable c' st")
      case True
      with False have "unreadable c' ?f" "unreadable c' ?e"
        by (simp_all add: with_unreadable_others)
      with unreadable_agree[OF with_failure_contents[of c k st], of c' h r] show ?thesis
        by simp
    next
      case no: False
      with False show ?thesis by (simp add: with_unreadable_others)
    qed
  qed
  show ?thesis
    unfolding write_refused_def using one[of Subscriptions] one[of Properties] one[of Bookings]
    by blast
qed


lemma example_subscribe_empty:
  "step example_host (Subscribe ''bob'' (jan 2) ''s2'' [''planId'' \<mapsto> JStr ''basic''])
     (with_empty Subscriptions example_store) =
   (Inr (SubscriptionR
      \<lparr>sub_id = ''s2'', sub_userId = ''bob'', sub_planId = JStr ''basic'', sub_price = 9.99,
       sub_status = ''active'', sub_createdAt = jan 2, sub_expiresAt = jan 32,
       sub_updatedAt = jan 2\<rparr>),
    example_store\<lparr>subscriptions_file := Stored
      [\<lparr>sub_id = ''s2'', sub_userId = ''bob'', sub_planId = JStr ''basic'', sub_price = 9.99,
        sub_status = ''active'', sub_createdAt = jan 2, sub_expiresAt = jan 32,
        sub_updatedAt = jan 2\<rparr>]\<rparr>)"
proof -
  have e: "setDate_plus example_host (jan 2) 30 = jan 32"
    by (simp add: setDate_plus_def example_host_def jan_def msPerDay_def)
  show ?thesis
    by (simp add: subscribe_def Let_def field_def plans_def e writeData_def)
qed



end
